theory Spec2Isabelle
  imports Main
begin

section \<open>Data model\<close>

text \<open>
  The verifier of \<^verbatim>\<open>src/index.js\<close> audits one game session: the bets delivered by
  the backend (newest first) against the data of the session's two contract events.
  JavaScript numbers that hold ids, amounts and counts are modelled as \<open>int\<close>; hashes,
  seeds, signatures and addresses are hex strings, modelled as \<open>string\<close>. A bet is taken
  to carry every field the verifier reads, with the type the verifier expects.
\<close>

text \<open>The object \<^verbatim>\<open>bet.user\<close>, of which the verifier reads \<^verbatim>\<open>address\<close>.\<close>

record userInfo =
  address :: string

text \<open>
  The object literal \<^verbatim>\<open>signedBetData\<close> built for every bet (index.js, lines 109-118):
  the payload handed to \<^verbatim>\<open>stateChannel.verifySignature\<close>. It has these eight fields.
\<close>

record signedBetData =
  roundId :: int
  gameType :: int
  num :: int
  betValue :: int
  balance :: int
  serverHash :: string
  userHash :: string
  gameId :: int

text \<open>
  A bet as delivered by the backend: the eight signed fields (\<open>betValue\<close> is the
  field \<^verbatim>\<open>value\<close>) and the fields the verifier reads besides.
\<close>

record bet = signedBetData +
  serverSeed :: string
  userSeed :: string
  resultNum :: int
  serverSig :: string
  userSig :: string
  user :: userInfo

text \<open>The object returned by \<^verbatim>\<open>getGameData\<close> (index.js, lines 59-65).\<close>

record gameData =
  gd_roundId :: int
  gd_balance :: int
  gd_serverEndHash :: string
  gd_userEndHash :: string
  gd_regularEnded :: bool

text \<open>
  The four functions of the package \<^verbatim>\<open>@dicether/state-channel\<close> that the verifier
  calls. The package is not part of the repository, so its functions are parameters of
  the model: every theorem below holds for any choice of them.
\<close>

record lib =
  verifySignature :: "signedBetData \<Rightarrow> int \<Rightarrow> string \<Rightarrow> string \<Rightarrow> string \<Rightarrow> bool"
  keccak :: "string \<Rightarrow> string"
  calcResultNumber :: "int \<Rightarrow> string \<Rightarrow> string \<Rightarrow> int \<Rightarrow> int"
  calcNewBalance :: "int \<Rightarrow> int \<Rightarrow> int \<Rightarrow> string \<Rightarrow> string \<Rightarrow> int \<Rightarrow> int"

text \<open>
  Every \<^verbatim>\<open>throw\<close> of the verifier, one constructor per message, carrying the values the
  message interpolates:
  \<^item> \<open>InvalidNumberOfBets n m\<close>: "Invalid number of bets! Expected: n Got: m"
    (\<open>n\<close> is \<^verbatim>\<open>bets.length\<close>, \<open>m\<close> is \<^verbatim>\<open>numBets\<close>);
  \<^item> \<open>InvalidFirstBetServerHash\<close>: "Invalid first bet serverHash";
  \<^item> \<open>InvalidFirstBetUserHash\<close>: "Invalid first bet user Hash";
  \<^item> \<open>InvalidServerSignature r\<close>: "Invalid server signature for bet with roundId: r";
  \<^item> \<open>InvalidPlayerSignature r\<close>: "Invalid player signature for bet with roundId: r";
  \<^item> \<open>InvalidUserSeed r\<close>: "Invalid user seed for bet with roundId: r";
  \<^item> \<open>InvalidServerSeed r\<close>: "Invalid server seed for bet with roundId: r";
  \<^item> \<open>InvalidHashChain\<close>: "Invalid hash chain!" (thrown at two places);
  \<^item> \<open>InvalidNumber a b\<close>: "Invalid number a instead ofb";
  \<^item> \<open>InvalidBalance a b\<close>: "Invalid balance a instead of b";
  \<^item> \<open>InvalidGameSessionBalance a b\<close>: "Invalid game session balance a instead of b";
  \<^item> \<open>TypeError\<close>: the error JavaScript raises when a property of \<^verbatim>\<open>undefined\<close> is read;
  \<^item> \<open>VerificationNotSupported\<close>: "Verification not supported for games below game id
    256!" (thrown by \<^verbatim>\<open>getContractAddress\<close> of the earlier variant).
\<close>

datatype error =
    InvalidNumberOfBets nat int
  | InvalidFirstBetServerHash
  | InvalidFirstBetUserHash
  | InvalidServerSignature int
  | InvalidPlayerSignature int
  | InvalidUserSeed int
  | InvalidServerSeed int
  | InvalidHashChain
  | InvalidNumber int int
  | InvalidBalance int int
  | InvalidGameSessionBalance int int
  | TypeError
  | VerificationNotSupported

section \<open>Constants of index.js\<close>

definition CONTRACT_ADDRESS_OLD :: string where
  "CONTRACT_ADDRESS_OLD = ''0xaEc1F783B29Aab2727d7C374Aa55483fe299feFa''"

definition SERVER_ADDRESS_OLD :: string where
  "SERVER_ADDRESS_OLD = ''0xCef260a5Fed7A896BBE07b933B3A5c17aEC094D8''"

definition CONTRACT_ADDRESS :: string where
  "CONTRACT_ADDRESS = ''0xa867bF8447eC6f614EA996057e3D769b76a8aa0e''"

definition SERVER_ADDRESS :: string where
  "SERVER_ADDRESS = ''0x437EC7503dFF1b5F5Ab4Dab4455C45a270629f4d''"

definition GAME_ID_CONTRACT_CHANGED :: int where
  "GAME_ID_CONTRACT_CHANGED = 5246"

definition CHAIN_ID :: int where
  "CHAIN_ID = 1"

section \<open>verifyBets (index.js)\<close>

text \<open>The payload built from a bet at the head of the loop body.\<close>

definition signedBetDataOf :: "'a signedBetData_scheme \<Rightarrow> signedBetData" where
  "signedBetDataOf b =
     \<lparr> roundId = roundId b, gameType = gameType b, num = num b, betValue = betValue b,
       balance = balance b, serverHash = serverHash b, userHash = userHash b,
       gameId = gameId b \<rparr>"

text \<open>
  The variables the loop carries from one bet to the next: \<^verbatim>\<open>userPrevHash\<close> and
  \<^verbatim>\<open>serverPrevHash\<close> (declared without a value, so \<open>None\<close> is \<^verbatim>\<open>undefined\<close>) and
  \<^verbatim>\<open>prevBalance\<close>.
\<close>

record loopVars =
  userPrevHash :: "string option"
  serverPrevHash :: "string option"
  prevBalance :: int

text \<open>
  One pass through the body of the \<^verbatim>\<open>for\<close> loop (index.js, lines 105-165), for the
  bet at index \<open>i\<close>: the checks in the order of the source, each failing with its own
  error, and the updated loop variables when all pass. \<open>sessionBalance\<close> is the
  parameter \<^verbatim>\<open>balance\<close> of \<^verbatim>\<open>verifyBets\<close>, which the message of the balance error
  interpolates.
\<close>

definition verifyBet ::
  "lib \<Rightarrow> int \<Rightarrow> string \<Rightarrow> string \<Rightarrow> nat \<Rightarrow> loopVars \<Rightarrow> bet \<Rightarrow> error + loopVars" where
  "verifyBet L sessionBalance contractAddress serverAddress i vars b =
     (let userAddress = address (user b);
          signedData = signedBetDataOf b
      in
      if \<not> verifySignature L signedData CHAIN_ID contractAddress (serverSig b) serverAddress
        then Inl (InvalidServerSignature (roundId b))
      else if \<not> verifySignature L signedData CHAIN_ID contractAddress (userSig b) userAddress
        then Inl (InvalidPlayerSignature (roundId b))
      else if keccak L (userSeed b) \<noteq> userHash b
        then Inl (InvalidUserSeed (roundId b))
      else if keccak L (serverSeed b) \<noteq> serverHash b
        then Inl (InvalidServerSeed (roundId b))
      else if i \<noteq> 0 \<and> Some (keccak L (userHash b)) \<noteq> userPrevHash vars
        then Inl InvalidHashChain
      else if i \<noteq> 0 \<and> Some (keccak L (serverHash b)) \<noteq> serverPrevHash vars
        then Inl InvalidHashChain
      else
        let resultNumShouldBe =
              calcResultNumber L (gameType b) (serverSeed b) (userSeed b) (num b)
        in
        if resultNum b \<noteq> resultNumShouldBe
          then Inl (InvalidNumber (resultNum b) resultNumShouldBe)
        else if balance b \<noteq> prevBalance vars
          then Inl (InvalidBalance (balance b) sessionBalance)
        else Inr \<lparr> userPrevHash = Some (userHash b),
                   serverPrevHash = Some (serverHash b),
                   prevBalance = calcNewBalance L (gameType b) (num b) (betValue b)
                                   (serverSeed b) (userSeed b) (prevBalance vars) \<rparr>)"

text \<open>
  The \<^verbatim>\<open>for\<close> loop over the bets from index \<open>i\<close> on: the first error ends it, and
  when the bets are exhausted it yields the loop variables.
\<close>

fun verifyLoop ::
  "lib \<Rightarrow> int \<Rightarrow> string \<Rightarrow> string \<Rightarrow> nat \<Rightarrow> loopVars \<Rightarrow> bet list \<Rightarrow> error + loopVars" where
  "verifyLoop L sessionBalance contractAddress serverAddress i vars [] = Inr vars"
| "verifyLoop L sessionBalance contractAddress serverAddress i vars (b # rest) =
     (case verifyBet L sessionBalance contractAddress serverAddress i vars b of
        Inl e \<Rightarrow> Inl e
      | Inr vars' \<Rightarrow>
          verifyLoop L sessionBalance contractAddress serverAddress (Suc i) vars' rest)"

text \<open>The loop variables before the first pass.\<close>

definition initialVars :: loopVars where
  "initialVars = \<lparr> userPrevHash = None, serverPrevHash = None, prevBalance = 0 \<rparr>"

text \<open>
  \<^verbatim>\<open>verifyBets\<close> (index.js, lines 74-174). The parameters \<^verbatim>\<open>gameId\<close>, \<^verbatim>\<open>roundId\<close> and
  \<^verbatim>\<open>balance\<close> are written \<open>sessionId\<close>, \<open>finalRoundId\<close> and \<open>sessionBalance\<close>, since
  the bets have fields of the same names. The result is a pair: what the call returns
  or throws, and the content of the caller's array \<^verbatim>\<open>bets\<close> after the call, since
  \<^verbatim>\<open>Array.prototype.reverse\<close> reverses the array it is called on in place.
  Reading \<^verbatim>\<open>firstBet.serverHash\<close> when \<^verbatim>\<open>bets[0]\<close> is \<^verbatim>\<open>undefined\<close> raises a
  \<open>TypeError\<close>.
\<close>

definition verifyBets ::
  "lib \<Rightarrow> int \<Rightarrow> bet list \<Rightarrow> int \<Rightarrow> int \<Rightarrow> string \<Rightarrow> string \<Rightarrow> bool \<Rightarrow> string \<Rightarrow> string
     \<Rightarrow> (error + bool) \<times> bet list" where
  "verifyBets L sessionId bets finalRoundId sessionBalance serverEndHash userEndHash
       regularEnded contractAddress serverAddress =
     (let numBets = finalRoundId - (if regularEnded then 1 else 0) in
      if int (length bets) \<noteq> numBets
        then (Inl (InvalidNumberOfBets (length bets) numBets), bets)
      else if finalRoundId = 0
        then (Inr True, bets)
      else
        let bets' = rev bets in
        (case bets' of
           [] \<Rightarrow> (Inl TypeError, bets')
         | firstBet # _ \<Rightarrow>
             if serverEndHash \<noteq> serverHash firstBet
               then (Inl InvalidFirstBetServerHash, bets')
             else if userEndHash \<noteq> userHash firstBet
               then (Inl InvalidFirstBetUserHash, bets')
             else
               (case verifyLoop L sessionBalance contractAddress serverAddress 0
                       initialVars bets' of
                  Inl e \<Rightarrow> (Inl e, bets')
                | Inr vars \<Rightarrow>
                    if regularEnded \<and> sessionBalance \<noteq> prevBalance vars
                      then (Inl (InvalidGameSessionBalance (prevBalance vars) sessionBalance),
                            bets')
                    else (Inr True, bets'))))"

section \<open>verifyGameSession (index.js)\<close>

text \<open>
  The choice of \<^verbatim>\<open>contractAddress\<close> and \<^verbatim>\<open>serverAddress\<close> at the head of
  \<^verbatim>\<open>verifyGameSession\<close> (index.js, lines 184-195).
\<close>

definition sessionAddresses :: "int \<Rightarrow> string \<times> string" where
  "sessionAddresses sessionId =
     (if sessionId \<ge> GAME_ID_CONTRACT_CHANGED
        then (CONTRACT_ADDRESS, SERVER_ADDRESS)
        else (CONTRACT_ADDRESS_OLD, SERVER_ADDRESS_OLD))"

text \<open>The two messages the last callback of \<^verbatim>\<open>verifyGameSession\<close> can show.\<close>

datatype alert =
    BetValidationFailed
  | AllBetsValid nat int

text \<open>
  The last callback of \<^verbatim>\<open>verifyGameSession\<close> (index.js, lines 212-227), which
  receives the fetched bets and game data: it calls \<^verbatim>\<open>verifyBets\<close> and shows one of
  two messages; an error thrown by \<^verbatim>\<open>verifyBets\<close> rejects the promise. The message of
  success reads \<^verbatim>\<open>bets.length\<close> of the array after the call.
\<close>

definition verifyGameSession :: "lib \<Rightarrow> int \<Rightarrow> bet list \<Rightarrow> gameData \<Rightarrow> error + alert" where
  "verifyGameSession L sessionId bets gd =
     (let (contractAddress, serverAddress) = sessionAddresses sessionId in
      case verifyBets L sessionId bets (gd_roundId gd) (gd_balance gd)
             (gd_serverEndHash gd) (gd_userEndHash gd) (gd_regularEnded gd)
             contractAddress serverAddress of
        (Inl e, bets') \<Rightarrow> Inl e
      | (Inr ok, bets') \<Rightarrow>
          if \<not> ok then Inr BetValidationFailed
          else Inr (AllBetsValid (length bets') sessionId))"


section \<open>The earlier variant of the verifier\<close>

text \<open>
  The repository holds a second, earlier variant of the same program. Its constants
  and functions are modelled beside those of index.js; where a name is used by both,
  the earlier one carries the suffix \<open>_early\<close>.
\<close>

definition CONTRACT_ADDRESS2 :: string where
  "CONTRACT_ADDRESS2 = ''0xbF8B9092e809DE87932B28ffaa00D520b04359aA''"

definition CONTRACT_ADDRESS3 :: string where
  "CONTRACT_ADDRESS3 = ''0x3e07881993c7542a6Da9025550B54331474b21dd''"

definition CONTRACT_ADDRESS4 :: string where
  "CONTRACT_ADDRESS4 = ''0xEB6F4eC38A347110941E86e691c2ca03e271dF3b''"

definition SERVER_ADDRESS_early :: string where
  "SERVER_ADDRESS_early = ''0xCef260a5Fed7A896BBE07b933B3A5c17aEC094D8''"

definition NEW_EIP_GAME_ID :: int where
  "NEW_EIP_GAME_ID = 572"

definition OLD_EIP_GAME_ID :: int where
  "OLD_EIP_GAME_ID = 638"

text \<open>\<^verbatim>\<open>getContractAddress\<close>: the contract of a game id, or the error thrown below 256.\<close>

definition getContractAddress :: "int \<Rightarrow> error + string" where
  "getContractAddress sessionId =
     (if sessionId < 256 then Inl VerificationNotSupported
      else if sessionId < 572 then Inr CONTRACT_ADDRESS2
      else if sessionId < 638 then Inr CONTRACT_ADDRESS3
      else Inr CONTRACT_ADDRESS4)"

text \<open>\<^verbatim>\<open>getSignatureVersion\<close>.\<close>

definition getSignatureVersion :: "int \<Rightarrow> int" where
  "getSignatureVersion sessionId =
     (if sessionId < NEW_EIP_GAME_ID \<or> sessionId \<ge> OLD_EIP_GAME_ID then 1 else 2)"

text \<open>A bet of the earlier variant has the field \<^verbatim>\<open>contractAddress\<close> besides.\<close>

record bet_early = bet +
  contractAddress :: string

text \<open>
  The package functions as the earlier variant calls them: \<^verbatim>\<open>verifySignature\<close> with
  the signature version as sixth argument, \<^verbatim>\<open>calcResultNumber\<close> with three arguments.
\<close>

record lib_early =
  verifySignature_early ::
    "signedBetData \<Rightarrow> int \<Rightarrow> string \<Rightarrow> string \<Rightarrow> string \<Rightarrow> int \<Rightarrow> bool"
  keccak_early :: "string \<Rightarrow> string"
  calcResultNumber_early :: "int \<Rightarrow> string \<Rightarrow> string \<Rightarrow> int"
  calcNewBalance_early :: "int \<Rightarrow> int \<Rightarrow> int \<Rightarrow> string \<Rightarrow> string \<Rightarrow> int \<Rightarrow> int"

text \<open>The loop body of the earlier variant (lines 120-181).\<close>

definition verifyBet_early ::
  "lib_early \<Rightarrow> int \<Rightarrow> int \<Rightarrow> nat \<Rightarrow> loopVars \<Rightarrow> bet_early \<Rightarrow> error + loopVars" where
  "verifyBet_early L sessionBalance version i vars b =
     (let contractAddr = contractAddress b;
          userAddress = address (user b);
          signedData = signedBetDataOf b
      in
      if \<not> verifySignature_early L signedData CHAIN_ID contractAddr (serverSig b)
             SERVER_ADDRESS_early version
        then Inl (InvalidServerSignature (roundId b))
      else if \<not> verifySignature_early L signedData CHAIN_ID contractAddr (userSig b)
                  userAddress version
        then Inl (InvalidPlayerSignature (roundId b))
      else if keccak_early L (userSeed b) \<noteq> userHash b
        then Inl (InvalidUserSeed (roundId b))
      else if keccak_early L (serverSeed b) \<noteq> serverHash b
        then Inl (InvalidServerSeed (roundId b))
      else if i \<noteq> 0 \<and> Some (keccak_early L (userHash b)) \<noteq> userPrevHash vars
        then Inl InvalidHashChain
      else if i \<noteq> 0 \<and> Some (keccak_early L (serverHash b)) \<noteq> serverPrevHash vars
        then Inl InvalidHashChain
      else
        let resultNumShouldBe =
              calcResultNumber_early L (gameType b) (serverSeed b) (userSeed b)
        in
        if resultNum b \<noteq> resultNumShouldBe
          then Inl (InvalidNumber (resultNum b) resultNumShouldBe)
        else if balance b \<noteq> prevBalance vars
          then Inl (InvalidBalance (balance b) sessionBalance)
        else Inr \<lparr> userPrevHash = Some (userHash b),
                   serverPrevHash = Some (serverHash b),
                   prevBalance = calcNewBalance_early L (gameType b) (num b) (betValue b)
                                   (serverSeed b) (userSeed b) (prevBalance vars) \<rparr>)"

fun verifyLoop_early ::
  "lib_early \<Rightarrow> int \<Rightarrow> int \<Rightarrow> nat \<Rightarrow> loopVars \<Rightarrow> bet_early list \<Rightarrow> error + loopVars" where
  "verifyLoop_early L sessionBalance version i vars [] = Inr vars"
| "verifyLoop_early L sessionBalance version i vars (b # rest) =
     (case verifyBet_early L sessionBalance version i vars b of
        Inl e \<Rightarrow> Inl e
      | Inr vars' \<Rightarrow> verifyLoop_early L sessionBalance version (Suc i) vars' rest)"

text \<open>
  \<^verbatim>\<open>verifyBets\<close> of the earlier variant (lines 93-190): no guard for a session
  without rounds, and the final balance is compared whatever way the session ended.
\<close>

definition verifyBets_early ::
  "lib_early \<Rightarrow> int \<Rightarrow> bet_early list \<Rightarrow> int \<Rightarrow> int \<Rightarrow> string \<Rightarrow> string \<Rightarrow> bool
     \<Rightarrow> (error + bool) \<times> bet_early list" where
  "verifyBets_early L sessionId bets finalRoundId sessionBalance serverEndHash userEndHash
       regularEnded =
     (let version = getSignatureVersion sessionId;
          numBets = finalRoundId - (if regularEnded then 1 else 0)
      in
      if int (length bets) \<noteq> numBets
        then (Inl (InvalidNumberOfBets (length bets) numBets), bets)
      else
        let bets' = rev bets in
        (case bets' of
           [] \<Rightarrow> (Inl TypeError, bets')
         | firstBet # _ \<Rightarrow>
             if serverEndHash \<noteq> serverHash firstBet
               then (Inl InvalidFirstBetServerHash, bets')
             else if userEndHash \<noteq> userHash firstBet
               then (Inl InvalidFirstBetUserHash, bets')
             else
               (case verifyLoop_early L sessionBalance version 0 initialVars bets' of
                  Inl e \<Rightarrow> (Inl e, bets')
                | Inr vars \<Rightarrow>
                    if sessionBalance \<noteq> prevBalance vars
                      then (Inl (InvalidGameSessionBalance (prevBalance vars) sessionBalance),
                            bets')
                    else (Inr True, bets'))))"

section \<open>Auxiliary notions for the statements\<close>

text \<open>
  The running balance after replaying the bets \<open>xs\<close>, in the order given, from the
  balance \<open>p\<close>: each bet advances it by \<^verbatim>\<open>calcNewBalance\<close>.
\<close>

fun runningBalance :: "lib \<Rightarrow> int \<Rightarrow> bet list \<Rightarrow> int" where
  "runningBalance L p [] = p"
| "runningBalance L p (b # bs) =
     runningBalance L
       (calcNewBalance L (gameType b) (num b) (betValue b) (serverSeed b) (userSeed b) p) bs"

text \<open>
  What the loop variables hold after the bets \<open>xs\<close> have passed, when they held
  \<open>vars\<close> before: the hashes of the last bet and the running balance.
\<close>

definition varsAfter :: "lib \<Rightarrow> loopVars \<Rightarrow> bet list \<Rightarrow> loopVars" where
  "varsAfter L vars xs =
     (if xs = [] then vars
      else \<lparr> userPrevHash = Some (userHash (last xs)),
             serverPrevHash = Some (serverHash (last xs)),
             prevBalance = runningBalance L (prevBalance vars) xs \<rparr>)"

text \<open>
  Names for the conditions that the loop body tests on a bet \<open>b\<close>: the two signatures
  over the payload of \<open>b\<close> in the domain of chain id and contract, the two seeds against
  their hashes, the two links to the bet \<open>p\<close> placed before, and the result number.
\<close>

abbreviation serverSigValid :: "lib \<Rightarrow> string \<Rightarrow> string \<Rightarrow> bet \<Rightarrow> bool" where
  "serverSigValid L contractAddr serverAddr b \<equiv>
     verifySignature L (signedBetDataOf b) CHAIN_ID contractAddr (serverSig b) serverAddr"

abbreviation userSigValid :: "lib \<Rightarrow> string \<Rightarrow> bet \<Rightarrow> bool" where
  "userSigValid L contractAddr b \<equiv>
     verifySignature L (signedBetDataOf b) CHAIN_ID contractAddr (userSig b)
       (address (user b))"

abbreviation userSeedValid :: "lib \<Rightarrow> bet \<Rightarrow> bool" where
  "userSeedValid L b \<equiv> keccak L (userSeed b) = userHash b"

abbreviation serverSeedValid :: "lib \<Rightarrow> bet \<Rightarrow> bool" where
  "serverSeedValid L b \<equiv> keccak L (serverSeed b) = serverHash b"

abbreviation userLinked :: "lib \<Rightarrow> bet \<Rightarrow> bet \<Rightarrow> bool" where
  "userLinked L p b \<equiv> keccak L (userHash b) = userHash p"

abbreviation serverLinked :: "lib \<Rightarrow> bet \<Rightarrow> bet \<Rightarrow> bool" where
  "serverLinked L p b \<equiv> keccak L (serverHash b) = serverHash p"

abbreviation resultValid :: "lib \<Rightarrow> bet \<Rightarrow> bool" where
  "resultValid L b \<equiv>
     resultNum b = calcResultNumber L (gameType b) (serverSeed b) (userSeed b) (num b)"

text \<open>
  The eras of the earlier variant written as the table the specification describes:
  each era has a first session id, the first id of the next era (\<open>None\<close> when it is
  open-ended), a contract, a server signer and a signature version.
\<close>

record era =
  minSessionId :: int
  maxSessionId :: "int option"
  contractIdentity :: string
  serverIdentity :: string
  signatureVersion :: int

definition spec_eras :: "era list" where
  "spec_eras =
     [ \<lparr> minSessionId = 256, maxSessionId = Some 572, contractIdentity = CONTRACT_ADDRESS2,
         serverIdentity = SERVER_ADDRESS_early, signatureVersion = 1 \<rparr>,
       \<lparr> minSessionId = 572, maxSessionId = Some 638, contractIdentity = CONTRACT_ADDRESS3,
         serverIdentity = SERVER_ADDRESS_early, signatureVersion = 2 \<rparr>,
       \<lparr> minSessionId = 638, maxSessionId = None, contractIdentity = CONTRACT_ADDRESS4,
         serverIdentity = SERVER_ADDRESS_early, signatureVersion = 1 \<rparr> ]"

text \<open>A session id lies in an era when it is in the half-open range of the era.\<close>

definition inEra :: "era \<Rightarrow> int \<Rightarrow> bool" where
  "inEra e sessionId =
     (minSessionId e \<le> sessionId \<and>
      (case maxSessionId e of None \<Rightarrow> True | Some m \<Rightarrow> sessionId < m))"

text \<open>
  A table is contiguous when every era ends where the next one starts and only the
  last era is open-ended.
\<close>

fun contiguous :: "era list \<Rightarrow> bool" where
  "contiguous [] = True"
| "contiguous [e] = (maxSessionId e = None)"
| "contiguous (e # e' # es) =
     (maxSessionId e = Some (minSessionId e') \<and> minSessionId e < minSessionId e' \<and>
      contiguous (e' # es))"

section \<open>A small session used to instantiate the theorems\<close>

text \<open>
  A toy instance of the package: a signature is valid when the chain id is 1 and it
  spells the signer followed by the contract, the hash of a string prefixes it with
  \<open>h\<close>, the result number is the bet's number and a bet adds its value to the balance.
\<close>

definition exLib :: lib where
  "exLib =
     \<lparr> verifySignature = (\<lambda>d chain contract sig signer. chain = 1 \<and> sig = signer @ contract),
       keccak = (\<lambda>s. CHR ''h'' # s),
       calcResultNumber = (\<lambda>g ss us n. n),
       calcNewBalance = (\<lambda>g n v ss us p. p + v) \<rparr>"

text \<open>The first bet placed: round 1, from balance 0, value 100.\<close>

definition exBet1 :: bet where
  "exBet1 =
     \<lparr> roundId = 1, gameType = 1, num = 7, betValue = 100, balance = 0,
       serverHash = ''hhha'', userHash = ''hhhb'', gameId = 9,
       serverSeed = ''hha'', userSeed = ''hhb'', resultNum = 7,
       serverSig = SERVER_ADDRESS_OLD @ CONTRACT_ADDRESS_OLD,
       userSig = ''U'' @ CONTRACT_ADDRESS_OLD, user = \<lparr> address = ''U'' \<rparr> \<rparr>"

text \<open>The second bet placed: round 2, from balance 100, value 150.\<close>

definition exBet2 :: bet where
  "exBet2 =
     \<lparr> roundId = 2, gameType = 1, num = 3, betValue = 150, balance = 100,
       serverHash = ''hha'', userHash = ''hhb'', gameId = 9,
       serverSeed = ''ha'', userSeed = ''hb'', resultNum = 3,
       serverSig = SERVER_ADDRESS_OLD @ CONTRACT_ADDRESS_OLD,
       userSig = ''U'' @ CONTRACT_ADDRESS_OLD, user = \<lparr> address = ''U'' \<rparr> \<rparr>"

text \<open>The third bet placed: round 3, from balance 250, value 150.\<close>

definition exBet3 :: bet where
  "exBet3 =
     \<lparr> roundId = 3, gameType = 1, num = 5, betValue = 150, balance = 250,
       serverHash = ''ha'', userHash = ''hb'', gameId = 9,
       serverSeed = ''a'', userSeed = ''b'', resultNum = 5,
       serverSig = SERVER_ADDRESS_OLD @ CONTRACT_ADDRESS_OLD,
       userSig = ''U'' @ CONTRACT_ADDRESS_OLD, user = \<lparr> address = ''U'' \<rparr> \<rparr>"

text \<open>The bets as the backend delivers them, newest first.\<close>

definition exBets :: "bet list" where
  "exBets = [exBet3, exBet2, exBet1]"

text \<open>
  Variants of the small session with one defect each: a forged server signature, a
  forged user signature, a wrong result number, a wrong balance, a wrong user seed and
  a wrong server seed, each in round 2; the same wrong result number and the same wrong
  balance in round 3; a user hash in round 2 that does not link to round 1 (in a session
  of two bets); and a server hash in round 3 that does not link to round 2.
\<close>

definition exForgedSig :: "bet list" where
  "exForgedSig = [exBet3, exBet2 \<lparr> serverSig := ''forged'' \<rparr>, exBet1]"

definition exForgedUserSig :: "bet list" where
  "exForgedUserSig = [exBet3, exBet2 \<lparr> userSig := ''forged'' \<rparr>, exBet1]"

definition exWrongResult :: "bet list" where
  "exWrongResult = [exBet3, exBet2 \<lparr> resultNum := 4 \<rparr>, exBet1]"

definition exWrongBalance :: "bet list" where
  "exWrongBalance = [exBet3, exBet2 \<lparr> balance := 90 \<rparr>, exBet1]"

definition exWrongUserSeed :: "bet list" where
  "exWrongUserSeed = [exBet3, exBet2 \<lparr> userSeed := ''q'' \<rparr>, exBet1]"

definition exWrongServerSeed :: "bet list" where
  "exWrongServerSeed = [exBet3, exBet2 \<lparr> serverSeed := ''q'' \<rparr>, exBet1]"

definition exLateWrongResult :: "bet list" where
  "exLateWrongResult = [exBet3 \<lparr> num := 3, resultNum := 4 \<rparr>, exBet2, exBet1]"


definition exUserChainBroken :: "bet list" where
  "exUserChainBroken = [exBet2 \<lparr> userHash := ''hy'', userSeed := ''y'' \<rparr>, exBet1]"

definition exServerChainBroken :: "bet list" where
  "exServerChainBroken =
     [exBet3 \<lparr> serverHash := ''hz'', serverSeed := ''z'' \<rparr>, exBet2, exBet1]"

text \<open>The game data of the small session: ended regularly in round 4 with balance 400.\<close>

definition exGameData :: gameData where
  "exGameData =
     \<lparr> gd_roundId = 4, gd_balance = 400, gd_serverEndHash = ''hhha'',
       gd_userEndHash = ''hhhb'', gd_regularEnded = True \<rparr>"

section \<open>The loop of verifyBets\<close>

lemma verifyLoop_append:
  "verifyLoop L sb ca sa i vars (xs @ ys) =
     (case verifyLoop L sb ca sa i vars xs of
        Inl e \<Rightarrow> Inl e
      | Inr v \<Rightarrow> verifyLoop L sb ca sa (i + length xs) v ys)"
  by (induction xs arbitrary: i vars) (auto split: sum.splits)

lemma verifyLoop_snoc:
  "verifyLoop L sb ca sa i vars (xs @ [b]) =
     (case verifyLoop L sb ca sa i vars xs of
        Inl e \<Rightarrow> Inl e
      | Inr v \<Rightarrow> verifyBet L sb ca sa (i + length xs) v b)"
  by (simp add: verifyLoop_append split: sum.splits)

text \<open>A pass succeeds exactly when the bet passes the eight checks of the body.\<close>

lemma verifyBet_Inr_iff:
  "verifyBet L sb ca sa i vars b = Inr v \<longleftrightarrow>
     verifySignature L (signedBetDataOf b) CHAIN_ID ca (serverSig b) sa \<and>
     verifySignature L (signedBetDataOf b) CHAIN_ID ca (userSig b) (address (user b)) \<and>
     keccak L (userSeed b) = userHash b \<and>
     keccak L (serverSeed b) = serverHash b \<and>
     (i = 0 \<or> Some (keccak L (userHash b)) = userPrevHash vars) \<and>
     (i = 0 \<or> Some (keccak L (serverHash b)) = serverPrevHash vars) \<and>
     resultNum b = calcResultNumber L (gameType b) (serverSeed b) (userSeed b) (num b) \<and>
     balance b = prevBalance vars \<and>
     v = \<lparr> userPrevHash = Some (userHash b), serverPrevHash = Some (serverHash b),
           prevBalance = calcNewBalance L (gameType b) (num b) (betValue b)
                           (serverSeed b) (userSeed b) (prevBalance vars) \<rparr>"
  by (auto simp: verifyBet_def Let_def)

lemma runningBalance_snoc:
  "runningBalance L p (xs @ [b]) =
     calcNewBalance L (gameType b) (num b) (betValue b) (serverSeed b) (userSeed b)
       (runningBalance L p xs)"
  by (induction xs arbitrary: p) simp_all

lemma prevBalance_varsAfter:
  "prevBalance (varsAfter L vars xs) = runningBalance L (prevBalance vars) xs"
  by (simp add: varsAfter_def)

lemma varsAfter_snoc:
  "varsAfter L vars (xs @ [b]) =
     \<lparr> userPrevHash = Some (userHash b), serverPrevHash = Some (serverHash b),
       prevBalance = calcNewBalance L (gameType b) (num b) (betValue b)
                       (serverSeed b) (userSeed b) (prevBalance (varsAfter L vars xs)) \<rparr>"
  by (simp add: varsAfter_def runningBalance_snoc)

text \<open>When the loop has passed a list of bets, its variables are those of \<open>varsAfter\<close>.\<close>

lemma verifyLoop_vars:
  "verifyLoop L sb ca sa i vars xs = Inr v \<Longrightarrow> v = varsAfter L vars xs"
proof (induction xs arbitrary: v rule: rev_induct)
  case Nil
  then show ?case by (simp add: varsAfter_def)
next
  case (snoc b xs)
  from snoc.prems obtain v1 where
    v1: "verifyLoop L sb ca sa i vars xs = Inr v1" and
    step: "verifyBet L sb ca sa (i + length xs) v1 b = Inr v"
    by (auto simp: verifyLoop_snoc split: sum.splits)
  from snoc.IH [OF v1] have "v1 = varsAfter L vars xs" .
  with step show ?case
    by (simp add: verifyBet_Inr_iff varsAfter_snoc)
qed

text \<open>A loop that passes the whole list has passed every prefix and every bet.\<close>

lemma verifyLoop_take:
  assumes "verifyLoop L sb ca sa i vars bs = Inr v"
  shows "verifyLoop L sb ca sa i vars (take k bs) = Inr (varsAfter L vars (take k bs))"
proof -
  have "verifyLoop L sb ca sa i vars (take k bs @ drop k bs) = Inr v"
    using assms by simp
  then obtain v1 where v1: "verifyLoop L sb ca sa i vars (take k bs) = Inr v1"
    unfolding verifyLoop_append by (auto split: sum.splits)
  with verifyLoop_vars [OF v1] show ?thesis by simp
qed

lemma verifyLoop_nth:
  assumes "verifyLoop L sb ca sa i vars bs = Inr v" and "k < length bs"
  shows "\<exists>v'. verifyBet L sb ca sa (i + k) (varsAfter L vars (take k bs)) (bs ! k) = Inr v'"
proof -
  from assms(2) have split: "take (Suc k) bs = take k bs @ [bs ! k]"
    by (simp add: take_Suc_conv_app_nth)
  from verifyLoop_take [OF assms(1), of "Suc k"]
  have "verifyLoop L sb ca sa i vars (take k bs @ [bs ! k])
          = Inr (varsAfter L vars (take (Suc k) bs))"
    by (simp only: split)
  moreover from assms(2) have "length (take k bs) = k" by simp
  ultimately show ?thesis
    using verifyLoop_take [OF assms(1), of k] by (simp add: verifyLoop_snoc)
qed

text \<open>The first bet that fails a check decides the error of the loop.\<close>

lemma verifyLoop_first_error:
  assumes "k < length bs"
    and "verifyLoop L sb ca sa i vars (take k bs) = Inr v"
    and "verifyBet L sb ca sa (i + k) v (bs ! k) = Inl e"
  shows "verifyLoop L sb ca sa i vars bs = Inl e"
proof -
  from assms(1) have "bs = take k bs @ (bs ! k) # drop (Suc k) bs"
    by (simp add: id_take_nth_drop)
  then have "verifyLoop L sb ca sa i vars bs =
      verifyLoop L sb ca sa i vars (take k bs @ (bs ! k) # drop (Suc k) bs)"
    by simp
  also from assms have "\<dots> = Inl e"
    by (simp add: verifyLoop_append)
  finally show ?thesis .
qed

lemma verifyBet_no_count_error:
  "verifyBet L sb ca sa i vars b \<noteq> Inl (InvalidNumberOfBets n m)"
  by (simp add: verifyBet_def Let_def)

lemma verifyLoop_no_count_error:
  "verifyLoop L sb ca sa i vars bs \<noteq> Inl (InvalidNumberOfBets n m)"
proof (induction bs arbitrary: i vars)
  case Nil
  show ?case by simp
next
  case (Cons b rest)
  show ?case
  proof (cases "verifyBet L sb ca sa i vars b")
    case (Inl e)
    with verifyBet_no_count_error [of L sb ca sa i vars b n m] show ?thesis by auto
  next
    case (Inr v)
    with Cons.IH [of "Suc i" v] show ?thesis by simp
  qed
qed

text \<open>
  The pass for the bet at index \<open>k\<close> of \<open>bs\<close>, after the bets before it have passed,
  written with the bets themselves.
\<close>

lemma varsAfter_take:
  assumes "0 < k" and "k \<le> length bs"
  shows "varsAfter L vars (take k bs) =
     \<lparr> userPrevHash = Some (userHash (bs ! (k - 1))),
       serverPrevHash = Some (serverHash (bs ! (k - 1))),
       prevBalance = runningBalance L (prevBalance vars) (take k bs) \<rparr>"
proof -
  from assms have ne: "take k bs \<noteq> []" by auto
  from last_conv_nth [OF ne] assms have "last (take k bs) = bs ! (k - 1)"
    by simp
  with ne show ?thesis by (simp add: varsAfter_def)
qed

lemma verifyBet_at:
  assumes "k < length bs"
  shows "verifyBet L sb ca sa k (varsAfter L initialVars (take k bs)) (bs ! k) =
     (if \<not> serverSigValid L ca sa (bs ! k) then Inl (InvalidServerSignature (roundId (bs ! k)))
      else if \<not> userSigValid L ca (bs ! k) then Inl (InvalidPlayerSignature (roundId (bs ! k)))
      else if \<not> userSeedValid L (bs ! k) then Inl (InvalidUserSeed (roundId (bs ! k)))
      else if \<not> serverSeedValid L (bs ! k) then Inl (InvalidServerSeed (roundId (bs ! k)))
      else if 0 < k \<and> \<not> userLinked L (bs ! (k - 1)) (bs ! k) then Inl InvalidHashChain
      else if 0 < k \<and> \<not> serverLinked L (bs ! (k - 1)) (bs ! k) then Inl InvalidHashChain
      else if \<not> resultValid L (bs ! k)
        then Inl (InvalidNumber (resultNum (bs ! k))
                    (calcResultNumber L (gameType (bs ! k)) (serverSeed (bs ! k))
                       (userSeed (bs ! k)) (num (bs ! k))))
      else if balance (bs ! k) \<noteq> runningBalance L 0 (take k bs)
        then Inl (InvalidBalance (balance (bs ! k)) sb)
      else Inr (varsAfter L initialVars (take (Suc k) bs)))"
proof (cases "k = 0")
  case True
  with assms show ?thesis
    by (simp add: verifyBet_def Let_def take_Suc_conv_app_nth varsAfter_snoc)
      (simp add: varsAfter_def initialVars_def)
next
  case False
  then have pos: "0 < k" by simp
  from assms have le: "k \<le> length bs" by simp
  have suc: "varsAfter L initialVars (take (Suc k) bs) =
     \<lparr> userPrevHash = Some (userHash (bs ! k)), serverPrevHash = Some (serverHash (bs ! k)),
       prevBalance = calcNewBalance L (gameType (bs ! k)) (num (bs ! k)) (betValue (bs ! k))
                       (serverSeed (bs ! k)) (userSeed (bs ! k))
                       (prevBalance (varsAfter L initialVars (take k bs))) \<rparr>"
    using assms by (simp add: take_Suc_conv_app_nth varsAfter_snoc)
  show ?thesis
    unfolding suc
    by (simp add: verifyBet_def Let_def varsAfter_take [OF pos le] pos)
      (simp add: initialVars_def)
qed




text \<open>Evaluating the verifier on the small session.\<close>

lemmas ex_defs =
  verifyBets_def verifyBet_def Let_def exLib_def exBets_def exBet1_def exBet2_def exBet3_def
  initialVars_def signedBetDataOf_def CHAIN_ID_def

lemma ex_session_ok:
  "verifyBets exLib 9 exBets 4 400 ''hhha'' ''hhhb'' True CONTRACT_ADDRESS_OLD
       SERVER_ADDRESS_OLD
     = (Inr True, [exBet1, exBet2, exBet3])"
  by (simp add: ex_defs)

section \<open>The checks of a whole run\<close>

text \<open>
  When the count check has passed on a list that is not empty, the run is: the two
  anchors, the loop over the reversed list, the final balance.
\<close>

lemma verifyBets_nonempty:
  assumes "int (length bets) = (if re then r - 1 else r)" and "bets \<noteq> []"
  shows "verifyBets L sid bets r bal sh uh re ca sa =
     (if sh \<noteq> serverHash (hd (rev bets)) then (Inl InvalidFirstBetServerHash, rev bets)
      else if uh \<noteq> userHash (hd (rev bets)) then (Inl InvalidFirstBetUserHash, rev bets)
      else case verifyLoop L bal ca sa 0 initialVars (rev bets) of
             Inl e \<Rightarrow> (Inl e, rev bets)
           | Inr vars \<Rightarrow>
               if re \<and> bal \<noteq> prevBalance vars
                 then (Inl (InvalidGameSessionBalance (prevBalance vars) bal), rev bets)
               else (Inr True, rev bets))"
proof -
  from assms(2) have "0 < length bets" by simp
  with assms(1) have r: "r \<noteq> 0" and n: "int (length bets) = r - (if re then 1 else 0)"
    by (auto split: if_splits)
  from assms(2) obtain b bs where rv: "rev bets = b # bs"
    by (cases "rev bets") auto
  show ?thesis
    by (simp add: verifyBets_def Let_def r n rv split: sum.splits)
qed

lemma verifyBets_throws_or_true:
  "(\<exists>e. fst (verifyBets L sid bets r bal sh uh re ca sa) = Inl e) \<or>
   fst (verifyBets L sid bets r bal sh uh re ca sa) = Inr True"
  by (auto simp: verifyBets_def Let_def split: list.splits sum.splits)

lemma verifyBets_Inr_iff:
  assumes "int (length bets) = (if re then r - 1 else r)" and "bets \<noteq> []"
  shows "fst (verifyBets L sid bets r bal sh uh re ca sa) = Inr True \<longleftrightarrow>
     sh = serverHash (hd (rev bets)) \<and> uh = userHash (hd (rev bets)) \<and>
     (\<exists>v. verifyLoop L bal ca sa 0 initialVars (rev bets) = Inr v \<and>
          (re \<longrightarrow> bal = prevBalance v))"
  unfolding verifyBets_nonempty [OF assms]
  by (auto split: sum.splits)

text \<open>What a passed loop says about the bet at index \<open>k\<close>.\<close>

lemma verifyLoop_initial_nth:
  assumes "verifyLoop L sb ca sa 0 initialVars bs = Inr v" and "k < length bs"
  shows "verifySignature L (signedBetDataOf (bs ! k)) CHAIN_ID ca (serverSig (bs ! k)) sa"
    and "verifySignature L (signedBetDataOf (bs ! k)) CHAIN_ID ca (userSig (bs ! k))
           (address (user (bs ! k)))"
    and "keccak L (userSeed (bs ! k)) = userHash (bs ! k)"
    and "keccak L (serverSeed (bs ! k)) = serverHash (bs ! k)"
    and "0 < k \<Longrightarrow> keccak L (userHash (bs ! k)) = userHash (bs ! (k - 1))"
    and "0 < k \<Longrightarrow> keccak L (serverHash (bs ! k)) = serverHash (bs ! (k - 1))"
    and "resultNum (bs ! k) =
           calcResultNumber L (gameType (bs ! k)) (serverSeed (bs ! k)) (userSeed (bs ! k))
             (num (bs ! k))"
    and "balance (bs ! k) = runningBalance L 0 (take k bs)"
proof -
  from verifyLoop_nth [OF assms] obtain v' where
    step: "verifyBet L sb ca sa k (varsAfter L initialVars (take k bs)) (bs ! k) = Inr v'"
    by auto
  note facts = step [unfolded verifyBet_Inr_iff]
  from facts show "verifySignature L (signedBetDataOf (bs ! k)) CHAIN_ID ca (serverSig (bs ! k)) sa"
    by simp
  from facts show "verifySignature L (signedBetDataOf (bs ! k)) CHAIN_ID ca (userSig (bs ! k))
           (address (user (bs ! k)))"
    by simp
  from facts show "keccak L (userSeed (bs ! k)) = userHash (bs ! k)" by simp
  from facts show "keccak L (serverSeed (bs ! k)) = serverHash (bs ! k)" by simp
  from facts show "resultNum (bs ! k) =
           calcResultNumber L (gameType (bs ! k)) (serverSeed (bs ! k)) (userSeed (bs ! k))
             (num (bs ! k))"
    by simp
  from facts show "balance (bs ! k) = runningBalance L 0 (take k bs)"
    by (simp add: prevBalance_varsAfter initialVars_def)
  have prev: "take k bs \<noteq> [] \<and> last (take k bs) = bs ! (k - 1)" if "0 < k"
  proof -
    from that assms(2) have ne: "take k bs \<noteq> []" by auto
    from last_conv_nth [OF ne] that assms(2) have "last (take k bs) = bs ! (k - 1)"
      by simp
    with ne show ?thesis by simp
  qed
  from facts prev show "0 < k \<Longrightarrow> keccak L (userHash (bs ! k)) = userHash (bs ! (k - 1))"
    by (simp add: varsAfter_def)
  from facts prev show "0 < k \<Longrightarrow> keccak L (serverHash (bs ! k)) = serverHash (bs ! (k - 1))"
    by (simp add: varsAfter_def)
qed

text \<open>The error of the first bet that fails is the error of the run.\<close>

lemma verifyBets_first_error:
  assumes "int (length bets) = (if re then r - 1 else r)"
    and "k < length bets"
    and "sh = serverHash (hd (rev bets))" and "uh = userHash (hd (rev bets))"
    and "verifyLoop L bal ca sa 0 initialVars (take k (rev bets)) = Inr v"
    and "verifyBet L bal ca sa k v (rev bets ! k) = Inl e"
  shows "verifyBets L sid bets r bal sh uh re ca sa = (Inl e, rev bets)"
proof -
  from assms(2) have ne: "bets \<noteq> []" by auto
  from assms(2) have "k < length (rev bets)" by simp
  from verifyLoop_first_error [OF this, of L bal ca sa 0 initialVars v e] assms(5,6)
  have "verifyLoop L bal ca sa 0 initialVars (rev bets) = Inl e" by simp
  with assms(3,4) show ?thesis
    by (simp add: verifyBets_nonempty [OF assms(1) ne])
qed

lemma verifyBets_count_error:
  assumes "int (length bets) \<noteq> (if re then r - 1 else r)"
  shows "verifyBets L sid bets r bal sh uh re ca sa =
           (Inl (InvalidNumberOfBets (length bets) (if re then r - 1 else r)), bets)"
  using assms by (cases re) (simp_all add: verifyBets_def Let_def)

text \<open>A run that returns has passed the count check, the anchors and the loop.\<close>

lemma verifyBets_ok_loop:
  assumes "fst (verifyBets L sid bets r bal sh uh re ca sa) = Inr True" and "bets \<noteq> []"
  shows "int (length bets) = (if re then r - 1 else r)"
    and "sh = serverHash (hd (rev bets))" and "uh = userHash (hd (rev bets))"
    and "\<exists>v. verifyLoop L bal ca sa 0 initialVars (rev bets) = Inr v \<and>
             (re \<longrightarrow> bal = prevBalance v)"
proof -
  show count: "int (length bets) = (if re then r - 1 else r)"
  proof (rule ccontr)
    assume "int (length bets) \<noteq> (if re then r - 1 else r)"
    from verifyBets_count_error [OF this, of L sid bal sh uh ca sa] assms(1)
    show False by simp
  qed
  from assms(1) [unfolded verifyBets_Inr_iff [OF count assms(2)]]
  show "sh = serverHash (hd (rev bets))" and "uh = userHash (hd (rev bets))"
    and "\<exists>v. verifyLoop L bal ca sa 0 initialVars (rev bets) = Inr v \<and>
             (re \<longrightarrow> bal = prevBalance v)"
    by simp_all
qed

text \<open>In a run that returns, every bet has passed every check of the loop body.\<close>

lemma verifyBets_ok_nth:
  assumes "fst (verifyBets L sid bets r bal sh uh re ca sa) = Inr True"
    and "k < length bets"
  shows "serverSigValid L ca sa (rev bets ! k)" and "userSigValid L ca (rev bets ! k)"
    and "userSeedValid L (rev bets ! k)" and "serverSeedValid L (rev bets ! k)"
    and "resultValid L (rev bets ! k)"
    and "balance (rev bets ! k) = runningBalance L 0 (take k (rev bets))"
proof -
  from assms(2) have ne: "bets \<noteq> []" and k: "k < length (rev bets)" by auto
  from verifyBets_ok_loop(4) [OF assms(1) ne] obtain v where
    loop: "verifyLoop L bal ca sa 0 initialVars (rev bets) = Inr v" by auto
  from verifyLoop_initial_nth [OF loop k]
  show "serverSigValid L ca sa (rev bets ! k)" and "userSigValid L ca (rev bets ! k)"
    and "userSeedValid L (rev bets ! k)" and "serverSeedValid L (rev bets ! k)"
    and "resultValid L (rev bets ! k)"
    and "balance (rev bets ! k) = runningBalance L 0 (take k (rev bets))"
    by simp_all
qed

lemma in_set_rev_nth:
  assumes "b \<in> set bets"
  obtains k where "k < length bets" and "rev bets ! k = b"
proof -
  from assms have "b \<in> set (rev bets)" by simp
  then obtain k where "k < length (rev bets)" and "rev bets ! k = b"
    unfolding in_set_conv_nth by blast
  with that show thesis by simp
qed

text \<open>The run stops at the first bet that fails, with the error of that bet.\<close>

lemma verifyBets_stops_at:
  assumes "int (length bets) = (if re then r - 1 else r)"
    and "k < length bets"
    and "sh = serverHash (hd (rev bets))" and "uh = userHash (hd (rev bets))"
    and "verifyLoop L bal ca sa 0 initialVars (take k (rev bets)) = Inr v"
    and "verifyBet L bal ca sa k (varsAfter L initialVars (take k (rev bets))) (rev bets ! k)
           = Inl e"
  shows "verifyBets L sid bets r bal sh uh re ca sa = (Inl e, rev bets)"
proof -
  from verifyLoop_vars [OF assms(5)] have "v = varsAfter L initialVars (take k (rev bets))" .
  with assms(6) have "verifyBet L bal ca sa k v (rev bets ! k) = Inl e" by simp
  from verifyBets_first_error [OF assms(1-5) this] show ?thesis .
qed

text \<open>The addresses that verifyGameSession hands to verifyBets.\<close>

lemma verifyGameSession_ok:
  assumes "verifyGameSession L sid bets gd = Inr a"
  shows "fst (verifyBets L sid bets (gd_roundId gd) (gd_balance gd) (gd_serverEndHash gd)
                (gd_userEndHash gd) (gd_regularEnded gd)
                (fst (sessionAddresses sid)) (snd (sessionAddresses sid))) = Inr True"
proof -
  let ?run = "verifyBets L sid bets (gd_roundId gd) (gd_balance gd) (gd_serverEndHash gd)
                (gd_userEndHash gd) (gd_regularEnded gd)
                (fst (sessionAddresses sid)) (snd (sessionAddresses sid))"
  from verifyBets_throws_or_true [of L sid bets "gd_roundId gd" "gd_balance gd"
      "gd_serverEndHash gd" "gd_userEndHash gd" "gd_regularEnded gd"
      "fst (sessionAddresses sid)" "snd (sessionAddresses sid)"]
  show ?thesis
  proof
    assume "\<exists>e. fst ?run = Inl e"
    then obtain e where "fst ?run = Inl e" ..
    then have "verifyGameSession L sid bets gd = Inl e"
      by (cases ?run) (simp add: verifyGameSession_def split_beta)
    with assms show ?thesis by simp
  qed
qed


text \<open>The errors that one pass of the loop body can throw.\<close>

lemma verifyBet_errors:
  assumes "verifyBet L sb ca sa i vars b = Inl e"
  shows "e \<in> {InvalidServerSignature (roundId b), InvalidPlayerSignature (roundId b),
              InvalidUserSeed (roundId b), InvalidServerSeed (roundId b), InvalidHashChain,
              InvalidNumber (resultNum b)
                (calcResultNumber L (gameType b) (serverSeed b) (userSeed b) (num b)),
              InvalidBalance (balance b) sb}"
  using assms by (simp add: verifyBet_def Let_def split: if_splits)


section \<open>The count check\<close>

text \<open>
  C5. The expected number of bets is the final round id less one when the session ended
  regularly and the final round id otherwise. \<^verbatim>\<open>verifyBets\<close> throws the error of the
  count check exactly when the length of the list differs from it, and then it throws
  that error whatever the other arguments are: no other check comes before it.
\<close>

theorem count_check_first:
  "((\<exists>n m. fst (verifyBets L sid bets r bal sh uh re ca sa) = Inl (InvalidNumberOfBets n m))
      \<longleftrightarrow> int (length bets) \<noteq> (if re then r - 1 else r)) \<and>
   (int (length bets) \<noteq> (if re then r - 1 else r) \<longrightarrow>
      verifyBets L sid bets r bal sh uh re ca sa =
        (Inl (InvalidNumberOfBets (length bets) (if re then r - 1 else r)), bets))"
proof -
  have fail: "verifyBets L sid bets r bal sh uh re ca sa =
        (Inl (InvalidNumberOfBets (length bets) (if re then r - 1 else r)), bets)"
    if "int (length bets) \<noteq> (if re then r - 1 else r)"
    using that by (cases re) (simp_all add: verifyBets_def Let_def)
  have pass: "fst (verifyBets L sid bets r bal sh uh re ca sa) \<noteq> Inl (InvalidNumberOfBets n m)"
    if "int (length bets) = (if re then r - 1 else r)" for n m
    using that verifyLoop_no_count_error [of L bal ca sa 0 initialVars "rev bets" n m]
    by (cases re) (auto simp: verifyBets_def Let_def split: list.splits sum.splits)
  from fail pass show ?thesis
    by (metis fst_conv)
qed

theorem count_check_first_witness:
  "int (length [exBet2]) \<noteq> (if True then 3 - 1 else 3) \<and>
   verifyBets exLib 9 [exBet2] 3 250 ''x'' ''y'' True ''C'' ''S''
     = (Inl (InvalidNumberOfBets 1 2), [exBet2])"
  using count_check_first [of exLib 9 "[exBet2]" 3 250 "''x''" "''y''" True "''C''" "''S''"]
  by simp

section \<open>The value returned\<close>

text \<open>
  C10. \<^verbatim>\<open>verifyBets\<close> either throws or returns \<^verbatim>\<open>true\<close>: it never returns
  \<^verbatim>\<open>false\<close>. So the callback of \<^verbatim>\<open>verifyGameSession\<close> never takes the branch that
  shows "Bet Validation failed!".
\<close>

theorem verifyBets_never_false:
  "((\<exists>e. fst (verifyBets L sid bets r bal sh uh re ca sa) = Inl e) \<or>
    fst (verifyBets L sid bets r bal sh uh re ca sa) = Inr True) \<and>
   fst (verifyBets L sid bets r bal sh uh re ca sa) \<noteq> Inr False \<and>
   verifyGameSession L sid bets gd \<noteq> Inr BetValidationFailed"
proof -
  have res: "\<And>r bal sh uh re ca sa.
      (\<exists>e. fst (verifyBets L sid bets r bal sh uh re ca sa) = Inl e) \<or>
      fst (verifyBets L sid bets r bal sh uh re ca sa) = Inr True"
    by (auto simp: verifyBets_def Let_def split: list.splits sum.splits)
  then have nf: "\<And>r bal sh uh re ca sa.
      fst (verifyBets L sid bets r bal sh uh re ca sa) \<noteq> Inr False"
    by (metis Inl_Inr_False sum.inject(2))
  have "verifyGameSession L sid bets gd \<noteq> Inr BetValidationFailed"
  proof (cases "sessionAddresses sid")
    case (Pair ca sa)
    with nf [of "gd_roundId gd" "gd_balance gd" "gd_serverEndHash gd" "gd_userEndHash gd"
                "gd_regularEnded gd" ca sa]
    show ?thesis
      by (auto simp: verifyGameSession_def split: prod.splits sum.splits)
  qed
  with res nf show ?thesis by blast
qed

theorem verifyBets_never_false_witness:
  "fst (verifyBets exLib 9 exBets 4 400 ''hhha'' ''hhhb'' True
          CONTRACT_ADDRESS_OLD SERVER_ADDRESS_OLD) = Inr True \<and>
   verifyGameSession exLib 9 exBets exGameData \<noteq> Inr BetValidationFailed"
  using verifyBets_never_false [of exLib 9 exBets 4 400 "''hhha''" "''hhhb''" True
          CONTRACT_ADDRESS_OLD SERVER_ADDRESS_OLD exGameData]
  by (simp add: ex_session_ok)

section \<open>A session without bets\<close>

text \<open>
  C6. A session whose expected number of bets is zero should pass without any check.
  The guard of \<^verbatim>\<open>verifyBets\<close> tests the final round id, not the expected number of bets:
  a session that ended in round 0 without a regular end passes, but a session that ended
  regularly in round 1, whose expected number of bets is zero as well, goes on to read
  \<^verbatim>\<open>bets[0].serverHash\<close> of the empty array and throws a \<open>TypeError\<close>.
\<close>

theorem no_bets_regular_end_throws:
  "verifyBets L sid [] 1 bal sh uh True ca sa = (Inl TypeError, []) \<and>
   verifyBets L sid [] 0 bal sh uh False ca sa = (Inr True, [])"
  by (simp add: verifyBets_def)

section \<open>The hash chains\<close>

text \<open>
  C1. Take a list of bets that is not empty and has passed the count check; the bets in
  the order they were placed are \<open>rev bets\<close>. \<^verbatim>\<open>verifyBets\<close> throws unless: every
  bet's server seed hashes to its server hash and its user seed to its user hash; the
  first bet placed has the server hash and the user hash of the session's creation
  event; and for every later bet the hash of its server hash is the server hash of the
  bet before it, and the same for the user hashes.
\<close>

theorem hash_chains_required:
  assumes "int (length bets) = (if re then r - 1 else r)" and "bets \<noteq> []"
  shows "(\<exists>e. fst (verifyBets L sid bets r bal sh uh re ca sa) = Inl e) \<or>
     (fst (verifyBets L sid bets r bal sh uh re ca sa) = Inr True \<and>
      (\<forall>b \<in> set bets. keccak L (serverSeed b) = serverHash b \<and>
                       keccak L (userSeed b) = userHash b) \<and>
      serverHash (hd (rev bets)) = sh \<and> userHash (hd (rev bets)) = uh \<and>
      (\<forall>k. 0 < k \<and> k < length bets \<longrightarrow>
         keccak L (serverHash (rev bets ! k)) = serverHash (rev bets ! (k - 1)) \<and>
         keccak L (userHash (rev bets ! k)) = userHash (rev bets ! (k - 1))))"
proof (cases "fst (verifyBets L sid bets r bal sh uh re ca sa)")
  case (Inl e)
  then show ?thesis by simp
next
  case (Inr ok)
  with verifyBets_throws_or_true [of L sid bets r bal sh uh re ca sa]
  have ok: "fst (verifyBets L sid bets r bal sh uh re ca sa) = Inr True" by auto
  from ok [unfolded verifyBets_Inr_iff [OF assms]] obtain v where
    anchors: "sh = serverHash (hd (rev bets))" "uh = userHash (hd (rev bets))" and
    loop: "verifyLoop L bal ca sa 0 initialVars (rev bets) = Inr v"
    by auto
  have seeds: "keccak L (serverSeed b) = serverHash b \<and> keccak L (userSeed b) = userHash b"
    if "b \<in> set bets" for b
  proof -
    from that have "b \<in> set (rev bets)" by simp
    then obtain k where k: "k < length (rev bets)" and b: "rev bets ! k = b"
      unfolding in_set_conv_nth by blast
    from verifyLoop_initial_nth(3,4) [OF loop k] b show ?thesis by simp
  qed
  have links: "keccak L (serverHash (rev bets ! k)) = serverHash (rev bets ! (k - 1)) \<and>
         keccak L (userHash (rev bets ! k)) = userHash (rev bets ! (k - 1))"
    if "0 < k \<and> k < length bets" for k
  proof -
    from that have k: "k < length (rev bets)" and pos: "0 < k" by simp_all
    from verifyLoop_initial_nth(5,6) [OF loop k] pos show ?thesis by simp
  qed
  from ok anchors seeds links show ?thesis by blast
qed

theorem hash_chains_required_witness:
  "int (length exBets) = (if True then 4 - 1 else 4) \<and> exBets \<noteq> [] \<and>
   fst (verifyBets exLib 9 exBets 4 400 ''hhha'' ''hhhb'' True CONTRACT_ADDRESS_OLD
          SERVER_ADDRESS_OLD) = Inr True \<and>
   keccak exLib (serverSeed exBet2) = serverHash exBet2 \<and>
   keccak exLib (userSeed exBet2) = userHash exBet2 \<and>
   serverHash (hd (rev exBets)) = ''hhha'' \<and> userHash (hd (rev exBets)) = ''hhhb'' \<and>
   keccak exLib (serverHash (rev exBets ! 2)) = serverHash (rev exBets ! 1) \<and>
   keccak exLib (userHash (rev exBets ! 2)) = userHash (rev exBets ! 1)"
proof -
  have count: "int (length exBets) = (if True then 4 - 1 else 4)" and ne: "exBets \<noteq> []"
    by (simp_all add: exBets_def)
  have ok: "fst (verifyBets exLib 9 exBets 4 400 ''hhha'' ''hhhb'' True CONTRACT_ADDRESS_OLD
          SERVER_ADDRESS_OLD) = Inr True"
    by (simp add: ex_session_ok)
  have mem: "exBet2 \<in> set exBets" and idx: "0 < (2::nat) \<and> 2 < length exBets"
    by (simp_all add: exBets_def)
  from hash_chains_required [OF count ne, of exLib 9 400 "''hhha''" "''hhhb''"
         CONTRACT_ADDRESS_OLD SERVER_ADDRESS_OLD] ok
  have all: "(\<forall>b \<in> set exBets. keccak exLib (serverSeed b) = serverHash b \<and>
                       keccak exLib (userSeed b) = userHash b) \<and>
      serverHash (hd (rev exBets)) = ''hhha'' \<and> userHash (hd (rev exBets)) = ''hhhb'' \<and>
      (\<forall>k. 0 < k \<and> k < length exBets \<longrightarrow>
         keccak exLib (serverHash (rev exBets ! k)) = serverHash (rev exBets ! (k - 1)) \<and>
         keccak exLib (userHash (rev exBets ! k)) = userHash (rev exBets ! (k - 1)))"
    by simp
  from all mem have "keccak exLib (serverSeed exBet2) = serverHash exBet2 \<and>
       keccak exLib (userSeed exBet2) = userHash exBet2" by blast
  moreover from all idx have "keccak exLib (serverHash (rev exBets ! 2)) = serverHash (rev exBets ! (2 - 1)) \<and>
         keccak exLib (userHash (rev exBets ! 2)) = userHash (rev exBets ! (2 - 1))" by blast
  ultimately show ?thesis using count ne ok all by simp
qed

section \<open>The signatures\<close>

text \<open>
  C3. For every bet \<^verbatim>\<open>verifyBets\<close> checks the server signature against the server
  address it was given and the user signature against \<^verbatim>\<open>bet.user.address\<close>, both over
  the payload \<open>signedBetDataOf\<close> of the bet, with \<open>CHAIN_ID\<close> and the contract address as
  separate arguments: a run that does not throw has found both signatures of every bet
  valid. When the bets placed before the bet at index \<open>k\<close> have passed and its server
  signature is not valid, the run throws the server-signature error with the round id of
  that bet; when its server signature is valid and its user signature is not, it throws
  the player-signature error with that round id. \<^verbatim>\<open>verifyGameSession\<close> hands over the
  contract and server address chosen for the session id. The payload of two bets is the
  same exactly when they agree on the eight fields round id, game type, number, value,
  balance, server hash, user hash and game id.
\<close>

theorem signatures_checked:
  "((\<exists>e. fst (verifyBets L sid bets r bal sh uh re ca sa) = Inl e) \<or>
      (\<forall>b \<in> set bets. serverSigValid L ca sa b \<and> userSigValid L ca b)) \<and>
   (\<forall>k v. int (length bets) = (if re then r - 1 else r) \<and> k < length bets \<and>
          sh = serverHash (hd (rev bets)) \<and> uh = userHash (hd (rev bets)) \<and>
          verifyLoop L bal ca sa 0 initialVars (take k (rev bets)) = Inr v \<longrightarrow>
      (\<not> serverSigValid L ca sa (rev bets ! k) \<longrightarrow>
         verifyBets L sid bets r bal sh uh re ca sa =
           (Inl (InvalidServerSignature (roundId (rev bets ! k))), rev bets)) \<and>
      (serverSigValid L ca sa (rev bets ! k) \<and> \<not> userSigValid L ca (rev bets ! k) \<longrightarrow>
         verifyBets L sid bets r bal sh uh re ca sa =
           (Inl (InvalidPlayerSignature (roundId (rev bets ! k))), rev bets))) \<and>
   ((\<exists>e. verifyGameSession L sid bets gd = Inl e) \<or>
      (\<forall>b \<in> set bets.
         serverSigValid L (fst (sessionAddresses sid)) (snd (sessionAddresses sid)) b \<and>
         userSigValid L (fst (sessionAddresses sid)) b)) \<and>
   (signedBetDataOf (b :: bet) = signedBetDataOf (b' :: bet) \<longleftrightarrow>
      roundId b = roundId b' \<and> gameType b = gameType b' \<and> num b = num b' \<and>
      betValue b = betValue b' \<and> balance b = balance b' \<and> serverHash b = serverHash b' \<and>
      userHash b = userHash b' \<and> gameId b = gameId b')"
proof -
  have all_valid: "\<forall>b \<in> set bets. serverSigValid L ca sa b \<and> userSigValid L ca b"
    if ok: "fst (verifyBets L sid bets r bal sh uh re ca sa) = Inr True"
    for r bal sh uh re ca sa
  proof
    fix b assume "b \<in> set bets"
    then obtain k where k: "k < length bets" and b: "rev bets ! k = b"
      by (rule in_set_rev_nth)
    from verifyBets_ok_nth(1,2) [OF ok k] b
    show "serverSigValid L ca sa b \<and> userSigValid L ca b" by simp
  qed
  have first: "(\<exists>e. fst (verifyBets L sid bets r bal sh uh re ca sa) = Inl e) \<or>
      (\<forall>b \<in> set bets. serverSigValid L ca sa b \<and> userSigValid L ca b)"
    using verifyBets_throws_or_true [of L sid bets r bal sh uh re ca sa] all_valid
    by blast
  have stop: "(\<not> serverSigValid L ca sa (rev bets ! k) \<longrightarrow>
         verifyBets L sid bets r bal sh uh re ca sa =
           (Inl (InvalidServerSignature (roundId (rev bets ! k))), rev bets)) \<and>
      (serverSigValid L ca sa (rev bets ! k) \<and> \<not> userSigValid L ca (rev bets ! k) \<longrightarrow>
         verifyBets L sid bets r bal sh uh re ca sa =
           (Inl (InvalidPlayerSignature (roundId (rev bets ! k))), rev bets))"
    if pre: "int (length bets) = (if re then r - 1 else r) \<and> k < length bets \<and>
          sh = serverHash (hd (rev bets)) \<and> uh = userHash (hd (rev bets)) \<and>
          verifyLoop L bal ca sa 0 initialVars (take k (rev bets)) = Inr v" for k v
  proof -
    from pre have k: "k < length (rev bets)" by simp
    note at = verifyBet_at [OF k, of L bal ca sa]
    from pre have stops: "\<And>e. verifyBet L bal ca sa k (varsAfter L initialVars (take k (rev bets)))
           (rev bets ! k) = Inl e \<Longrightarrow>
        verifyBets L sid bets r bal sh uh re ca sa = (Inl e, rev bets)"
      by (blast intro: verifyBets_stops_at)
    show ?thesis
    proof (intro conjI impI)
      assume "\<not> serverSigValid L ca sa (rev bets ! k)"
      with at show "verifyBets L sid bets r bal sh uh re ca sa =
           (Inl (InvalidServerSignature (roundId (rev bets ! k))), rev bets)"
        by (intro stops) simp
    next
      assume "serverSigValid L ca sa (rev bets ! k) \<and> \<not> userSigValid L ca (rev bets ! k)"
      with at show "verifyBets L sid bets r bal sh uh re ca sa =
           (Inl (InvalidPlayerSignature (roundId (rev bets ! k))), rev bets)"
        by (intro stops) simp
    qed
  qed
  have session: "(\<exists>e. verifyGameSession L sid bets gd = Inl e) \<or>
      (\<forall>b \<in> set bets.
         serverSigValid L (fst (sessionAddresses sid)) (snd (sessionAddresses sid)) b \<and>
         userSigValid L (fst (sessionAddresses sid)) b)"
  proof (cases "verifyGameSession L sid bets gd")
    case (Inl e)
    then show ?thesis by simp
  next
    case (Inr a)
    from all_valid [OF verifyGameSession_ok [OF Inr]] show ?thesis by simp
  qed
  have payload: "signedBetDataOf b = signedBetDataOf b' \<longleftrightarrow>
      roundId b = roundId b' \<and> gameType b = gameType b' \<and> num b = num b' \<and>
      betValue b = betValue b' \<and> balance b = balance b' \<and> serverHash b = serverHash b' \<and>
      userHash b = userHash b' \<and> gameId b = gameId b'"
    by (auto simp: signedBetDataOf_def)
  from first stop session payload show ?thesis by blast
qed

theorem signatures_checked_witness:
  "int (length exForgedSig) = (if True then 4 - 1 else 4) \<and> 1 < length exForgedSig \<and>
   ''hhha'' = serverHash (hd (rev exForgedSig)) \<and> ''hhhb'' = userHash (hd (rev exForgedSig)) \<and>
   verifyLoop exLib 400 CONTRACT_ADDRESS_OLD SERVER_ADDRESS_OLD 0 initialVars
       (take 1 (rev exForgedSig)) =
     Inr \<lparr> userPrevHash = Some ''hhhb'', serverPrevHash = Some ''hhha'', prevBalance = 100 \<rparr> \<and>
   \<not> serverSigValid exLib CONTRACT_ADDRESS_OLD SERVER_ADDRESS_OLD (rev exForgedSig ! 1) \<and>
   verifyBets exLib 9 exForgedSig 4 400 ''hhha'' ''hhhb'' True CONTRACT_ADDRESS_OLD
       SERVER_ADDRESS_OLD =
     (Inl (InvalidServerSignature 2), rev exForgedSig) \<and>
   int (length exForgedUserSig) = (if True then 4 - 1 else 4) \<and>
   1 < length exForgedUserSig \<and>
   ''hhha'' = serverHash (hd (rev exForgedUserSig)) \<and>
   ''hhhb'' = userHash (hd (rev exForgedUserSig)) \<and>
   verifyLoop exLib 400 CONTRACT_ADDRESS_OLD SERVER_ADDRESS_OLD 0 initialVars
       (take 1 (rev exForgedUserSig)) =
     Inr \<lparr> userPrevHash = Some ''hhhb'', serverPrevHash = Some ''hhha'', prevBalance = 100 \<rparr> \<and>
   serverSigValid exLib CONTRACT_ADDRESS_OLD SERVER_ADDRESS_OLD (rev exForgedUserSig ! 1) \<and>
   \<not> userSigValid exLib CONTRACT_ADDRESS_OLD (rev exForgedUserSig ! 1) \<and>
   verifyBets exLib 9 exForgedUserSig 4 400 ''hhha'' ''hhhb'' True CONTRACT_ADDRESS_OLD
       SERVER_ADDRESS_OLD =
     (Inl (InvalidPlayerSignature 2), rev exForgedUserSig) \<and>
   verifyGameSession exLib 9 exBets exGameData = Inr (AllBetsValid 3 9) \<and>
   serverSigValid exLib (fst (sessionAddresses 9)) (snd (sessionAddresses 9)) exBet2 \<and>
   userSigValid exLib (fst (sessionAddresses 9)) exBet2 \<and>
   serverSigValid exLib CONTRACT_ADDRESS_OLD SERVER_ADDRESS_OLD exBet2 \<and>
   userSigValid exLib CONTRACT_ADDRESS_OLD exBet2"
proof -
  have hyps: "int (length exForgedSig) = (if True then 4 - 1 else 4) \<and> 1 < length exForgedSig \<and>
      ''hhha'' = serverHash (hd (rev exForgedSig)) \<and>
      ''hhhb'' = userHash (hd (rev exForgedSig)) \<and>
      verifyLoop exLib 400 CONTRACT_ADDRESS_OLD SERVER_ADDRESS_OLD 0 initialVars
          (take 1 (rev exForgedSig)) =
        Inr \<lparr> userPrevHash = Some ''hhhb'', serverPrevHash = Some ''hhha'',
              prevBalance = 100 \<rparr>"
    by (simp add: exForgedSig_def ex_defs)
  have forged: "\<not> serverSigValid exLib CONTRACT_ADDRESS_OLD SERVER_ADDRESS_OLD
                    (rev exForgedSig ! 1)"
    by (simp add: exForgedSig_def exLib_def exBet2_def SERVER_ADDRESS_OLD_def)
  have rid: "roundId (rev exForgedSig ! 1) = 2"
    by (simp add: exForgedSig_def exBet2_def)
  note inst = signatures_checked [of exLib 9 exForgedSig 4 400 "''hhha''" "''hhhb''" True
      CONTRACT_ADDRESS_OLD SERVER_ADDRESS_OLD]
  from inst hyps forged have "verifyBets exLib 9 exForgedSig 4 400 ''hhha'' ''hhhb'' True
      CONTRACT_ADDRESS_OLD SERVER_ADDRESS_OLD =
     (Inl (InvalidServerSignature (roundId (rev exForgedSig ! 1))), rev exForgedSig)"
    by blast
  with rid have stopped: "verifyBets exLib 9 exForgedSig 4 400 ''hhha'' ''hhhb'' True
      CONTRACT_ADDRESS_OLD SERVER_ADDRESS_OLD =
     (Inl (InvalidServerSignature 2), rev exForgedSig)"
    by simp
  have hyps_u: "int (length exForgedUserSig) = (if True then 4 - 1 else 4) \<and>
      1 < length exForgedUserSig \<and>
      ''hhha'' = serverHash (hd (rev exForgedUserSig)) \<and>
      ''hhhb'' = userHash (hd (rev exForgedUserSig)) \<and>
      verifyLoop exLib 400 CONTRACT_ADDRESS_OLD SERVER_ADDRESS_OLD 0 initialVars
          (take 1 (rev exForgedUserSig)) =
        Inr \<lparr> userPrevHash = Some ''hhhb'', serverPrevHash = Some ''hhha'',
              prevBalance = 100 \<rparr>"
    by (simp add: exForgedUserSig_def ex_defs)
  have forged_u: "serverSigValid exLib CONTRACT_ADDRESS_OLD SERVER_ADDRESS_OLD
                    (rev exForgedUserSig ! 1) \<and>
      \<not> userSigValid exLib CONTRACT_ADDRESS_OLD (rev exForgedUserSig ! 1)"
    by (simp add: exForgedUserSig_def exLib_def exBet2_def CHAIN_ID_def)
  have rid_u: "roundId (rev exForgedUserSig ! 1) = 2"
    by (simp add: exForgedUserSig_def exBet2_def)
  note inst_u = signatures_checked [of exLib 9 exForgedUserSig 4 400 "''hhha''" "''hhhb''"
      True CONTRACT_ADDRESS_OLD SERVER_ADDRESS_OLD]
  from inst_u hyps_u forged_u
  have "verifyBets exLib 9 exForgedUserSig 4 400 ''hhha'' ''hhhb'' True
      CONTRACT_ADDRESS_OLD SERVER_ADDRESS_OLD =
     (Inl (InvalidPlayerSignature (roundId (rev exForgedUserSig ! 1))), rev exForgedUserSig)"
    by blast
  with rid_u have stopped_u: "verifyBets exLib 9 exForgedUserSig 4 400 ''hhha'' ''hhhb'' True
      CONTRACT_ADDRESS_OLD SERVER_ADDRESS_OLD =
     (Inl (InvalidPlayerSignature 2), rev exForgedUserSig)"
    by simp
  have addrs: "sessionAddresses 9 = (CONTRACT_ADDRESS_OLD, SERVER_ADDRESS_OLD)"
    by (simp add: sessionAddresses_def GAME_ID_CONTRACT_CHANGED_def)
  have session: "verifyGameSession exLib 9 exBets exGameData = Inr (AllBetsValid 3 9)"
    by (simp add: verifyGameSession_def addrs exGameData_def ex_session_ok)
  have mem: "exBet2 \<in> set exBets" by (simp add: exBets_def)
  from signatures_checked [of exLib 9 exBets 4 400 "''hhha''" "''hhhb''" True
      CONTRACT_ADDRESS_OLD SERVER_ADDRESS_OLD exGameData] session mem
  have era: "serverSigValid exLib (fst (sessionAddresses 9)) (snd (sessionAddresses 9)) exBet2 \<and>
      userSigValid exLib (fst (sessionAddresses 9)) exBet2"
    by auto
  from mem signatures_checked [of exLib 9 exBets 4 400 "''hhha''" "''hhhb''" True
      CONTRACT_ADDRESS_OLD SERVER_ADDRESS_OLD] ex_session_ok
  have "serverSigValid exLib CONTRACT_ADDRESS_OLD SERVER_ADDRESS_OLD exBet2 \<and>
        userSigValid exLib CONTRACT_ADDRESS_OLD exBet2"
    by auto
  with hyps forged stopped hyps_u forged_u stopped_u session era show ?thesis by blast
qed

section \<open>The result number\<close>

text \<open>
  C4 (as amended). The result number a bet must declare is \<^verbatim>\<open>calcResultNumber\<close> of its game type,
  server seed, user seed and number: a run that does not throw has found it so for
  every bet. When the bets placed before the bet at index \<open>k\<close> have passed, that bet has
  passed the signature, seed and hash chain checks, and its declared result number differs
  from the computed one, the run throws at once the error of the result number, which
  carries the declared and the computed number and not the round id.
\<close>

theorem result_number_checked:
  "((\<exists>e. fst (verifyBets L sid bets r bal sh uh re ca sa) = Inl e) \<or>
      (\<forall>b \<in> set bets.
         resultNum b = calcResultNumber L (gameType b) (serverSeed b) (userSeed b) (num b))) \<and>
   (\<forall>k v. int (length bets) = (if re then r - 1 else r) \<and> k < length bets \<and>
          sh = serverHash (hd (rev bets)) \<and> uh = userHash (hd (rev bets)) \<and>
          verifyLoop L bal ca sa 0 initialVars (take k (rev bets)) = Inr v \<and>
          serverSigValid L ca sa (rev bets ! k) \<and> userSigValid L ca (rev bets ! k) \<and>
          userSeedValid L (rev bets ! k) \<and> serverSeedValid L (rev bets ! k) \<and>
          (0 < k \<longrightarrow> userLinked L (rev bets ! (k - 1)) (rev bets ! k) \<and>
                     serverLinked L (rev bets ! (k - 1)) (rev bets ! k)) \<and>
          resultNum (rev bets ! k) \<noteq>
            calcResultNumber L (gameType (rev bets ! k)) (serverSeed (rev bets ! k))
              (userSeed (rev bets ! k)) (num (rev bets ! k)) \<longrightarrow>
      verifyBets L sid bets r bal sh uh re ca sa =
        (Inl (InvalidNumber (resultNum (rev bets ! k))
               (calcResultNumber L (gameType (rev bets ! k)) (serverSeed (rev bets ! k))
                  (userSeed (rev bets ! k)) (num (rev bets ! k)))),
         rev bets))"
proof -
  have all_valid: "\<forall>b \<in> set bets. resultValid L b"
    if ok: "fst (verifyBets L sid bets r bal sh uh re ca sa) = Inr True"
  proof
    fix b assume "b \<in> set bets"
    then obtain k where k: "k < length bets" and b: "rev bets ! k = b"
      by (rule in_set_rev_nth)
    from verifyBets_ok_nth(5) [OF ok k] b show "resultValid L b" by simp
  qed
  have first: "(\<exists>e. fst (verifyBets L sid bets r bal sh uh re ca sa) = Inl e) \<or>
      (\<forall>b \<in> set bets. resultValid L b)"
    using verifyBets_throws_or_true [of L sid bets r bal sh uh re ca sa] all_valid
    by blast
  have stop: "verifyBets L sid bets r bal sh uh re ca sa =
        (Inl (InvalidNumber (resultNum (rev bets ! k))
               (calcResultNumber L (gameType (rev bets ! k)) (serverSeed (rev bets ! k))
                  (userSeed (rev bets ! k)) (num (rev bets ! k)))),
         rev bets)"
    if count: "int (length bets) = (if re then r - 1 else r)" and k: "k < length bets"
      and anchors: "sh = serverHash (hd (rev bets))" "uh = userHash (hd (rev bets))"
      and pre: "verifyLoop L bal ca sa 0 initialVars (take k (rev bets)) = Inr v"
      and earlier: "serverSigValid L ca sa (rev bets ! k)" "userSigValid L ca (rev bets ! k)"
          "userSeedValid L (rev bets ! k)" "serverSeedValid L (rev bets ! k)"
          "0 < k \<longrightarrow> userLinked L (rev bets ! (k - 1)) (rev bets ! k) \<and>
                     serverLinked L (rev bets ! (k - 1)) (rev bets ! k)"
      and wrong: "\<not> resultValid L (rev bets ! k)"
    for k v
  proof -
    from k have k': "k < length (rev bets)" by simp
    have "verifyBet L bal ca sa k (varsAfter L initialVars (take k (rev bets))) (rev bets ! k)
        = Inl (InvalidNumber (resultNum (rev bets ! k))
               (calcResultNumber L (gameType (rev bets ! k)) (serverSeed (rev bets ! k))
                  (userSeed (rev bets ! k)) (num (rev bets ! k))))"
      unfolding verifyBet_at [OF k', of L bal ca sa] using earlier wrong
      by (cases "0 < k") simp_all
    from verifyBets_stops_at [OF count k anchors pre this] show ?thesis .
  qed
  from first stop show ?thesis by blast
qed

theorem result_number_checked_witness:
  "int (length exWrongResult) = (if True then 4 - 1 else 4) \<and> 1 < length exWrongResult \<and>
   ''hhha'' = serverHash (hd (rev exWrongResult)) \<and>
   ''hhhb'' = userHash (hd (rev exWrongResult)) \<and>
   verifyLoop exLib 400 CONTRACT_ADDRESS_OLD SERVER_ADDRESS_OLD 0 initialVars
       (take 1 (rev exWrongResult)) =
     Inr \<lparr> userPrevHash = Some ''hhhb'', serverPrevHash = Some ''hhha'', prevBalance = 100 \<rparr> \<and>
   serverSigValid exLib CONTRACT_ADDRESS_OLD SERVER_ADDRESS_OLD (rev exWrongResult ! 1) \<and>
   userSigValid exLib CONTRACT_ADDRESS_OLD (rev exWrongResult ! 1) \<and>
   userSeedValid exLib (rev exWrongResult ! 1) \<and>
   serverSeedValid exLib (rev exWrongResult ! 1) \<and>
   userLinked exLib (rev exWrongResult ! (1 - 1)) (rev exWrongResult ! 1) \<and>
   serverLinked exLib (rev exWrongResult ! (1 - 1)) (rev exWrongResult ! 1) \<and>
   resultNum (rev exWrongResult ! 1) \<noteq>
     calcResultNumber exLib (gameType (rev exWrongResult ! 1))
       (serverSeed (rev exWrongResult ! 1)) (userSeed (rev exWrongResult ! 1))
       (num (rev exWrongResult ! 1)) \<and>
   verifyBets exLib 9 exWrongResult 4 400 ''hhha'' ''hhhb'' True CONTRACT_ADDRESS_OLD
       SERVER_ADDRESS_OLD =
     (Inl (InvalidNumber 4 3), rev exWrongResult) \<and>
   resultNum exBet2 =
     calcResultNumber exLib (gameType exBet2) (serverSeed exBet2) (userSeed exBet2)
       (num exBet2)"
proof -
  have hyps: "int (length exWrongResult) = (if True then 4 - 1 else 4) \<and>
      1 < length exWrongResult \<and>
      ''hhha'' = serverHash (hd (rev exWrongResult)) \<and>
      ''hhhb'' = userHash (hd (rev exWrongResult)) \<and>
      verifyLoop exLib 400 CONTRACT_ADDRESS_OLD SERVER_ADDRESS_OLD 0 initialVars
          (take 1 (rev exWrongResult)) =
        Inr \<lparr> userPrevHash = Some ''hhhb'', serverPrevHash = Some ''hhha'',
              prevBalance = 100 \<rparr> \<and>
      serverSigValid exLib CONTRACT_ADDRESS_OLD SERVER_ADDRESS_OLD (rev exWrongResult ! 1) \<and>
      userSigValid exLib CONTRACT_ADDRESS_OLD (rev exWrongResult ! 1) \<and>
      userSeedValid exLib (rev exWrongResult ! 1) \<and>
      serverSeedValid exLib (rev exWrongResult ! 1) \<and>
      userLinked exLib (rev exWrongResult ! (1 - 1)) (rev exWrongResult ! 1) \<and>
      serverLinked exLib (rev exWrongResult ! (1 - 1)) (rev exWrongResult ! 1) \<and>
      resultNum (rev exWrongResult ! 1) \<noteq>
        calcResultNumber exLib (gameType (rev exWrongResult ! 1))
          (serverSeed (rev exWrongResult ! 1)) (userSeed (rev exWrongResult ! 1))
          (num (rev exWrongResult ! 1))"
    by (simp add: exWrongResult_def ex_defs)
  have vals: "resultNum (rev exWrongResult ! 1) = 4 \<and>
      calcResultNumber exLib (gameType (rev exWrongResult ! 1))
          (serverSeed (rev exWrongResult ! 1)) (userSeed (rev exWrongResult ! 1))
          (num (rev exWrongResult ! 1)) = 3"
    by (simp add: exWrongResult_def ex_defs)
  note inst = result_number_checked [of exLib 9 exWrongResult 4 400 "''hhha''" "''hhhb''" True
      CONTRACT_ADDRESS_OLD SERVER_ADDRESS_OLD]
  from inst hyps have "verifyBets exLib 9 exWrongResult 4 400 ''hhha'' ''hhhb'' True
      CONTRACT_ADDRESS_OLD SERVER_ADDRESS_OLD =
     (Inl (InvalidNumber (resultNum (rev exWrongResult ! 1))
        (calcResultNumber exLib (gameType (rev exWrongResult ! 1))
          (serverSeed (rev exWrongResult ! 1)) (userSeed (rev exWrongResult ! 1))
          (num (rev exWrongResult ! 1)))), rev exWrongResult)"
    by blast
  with vals have stopped: "verifyBets exLib 9 exWrongResult 4 400 ''hhha'' ''hhhb'' True
      CONTRACT_ADDRESS_OLD SERVER_ADDRESS_OLD =
     (Inl (InvalidNumber 4 3), rev exWrongResult)"
    by simp
  have "exBet2 \<in> set exBets" by (simp add: exBets_def)
  with result_number_checked [of exLib 9 exBets 4 400 "''hhha''" "''hhhb''" True
      CONTRACT_ADDRESS_OLD SERVER_ADDRESS_OLD] ex_session_ok
  have "resultNum exBet2 =
     calcResultNumber exLib (gameType exBet2) (serverSeed exBet2) (userSeed exBet2)
       (num exBet2)"
    by auto
  with hyps stopped show ?thesis by blast
qed

text \<open>
  C4 as stated fails in what it says of the error. A wrong result number in round 2 of
  one session and the same wrong result number in round 3 of another throw the same
  error: it carries the declared and the computed number and does not tell the round.
\<close>

theorem result_error_names_no_round:
  "roundId (rev exWrongResult ! 1) = 2 \<and>
   \<not> resultValid exLib (rev exWrongResult ! 1) \<and>
   roundId (rev exLateWrongResult ! 2) = 3 \<and>
   \<not> resultValid exLib (rev exLateWrongResult ! 2) \<and>
   fst (verifyBets exLib 9 exWrongResult 4 400 ''hhha'' ''hhhb'' True CONTRACT_ADDRESS_OLD
          SERVER_ADDRESS_OLD) = Inl (InvalidNumber 4 3) \<and>
   fst (verifyBets exLib 9 exLateWrongResult 4 400 ''hhha'' ''hhhb'' True
          CONTRACT_ADDRESS_OLD SERVER_ADDRESS_OLD) = Inl (InvalidNumber 4 3)"
  by (simp add: exWrongResult_def exLateWrongResult_def ex_defs)

section \<open>The balances\<close>




section \<open>The errors\<close>

text \<open>
  C8 (as amended). Every failure ends the run at the first check that fails, with the
  error of that check. A list of the wrong length throws the count error and nothing
  else is looked at. On a list that is not empty and has passed the count check, a wrong
  server anchor throws the error of the first bet's server hash, and a right server
  anchor with a wrong user anchor that of the first bet's user hash. When the anchors
  hold and the bets placed before the bet at index \<open>k\<close> have passed, an error of the loop
  body on that bet is the error of the run, and the body tests in this order: the server
  signature, the user signature, the user seed, the server seed, the two links of the
  hash chain, the result number, the balance; the first test that fails decides the
  error. The errors of the two signatures and of the two seeds carry the round id of the
  bet and tell server from user. A broken link, of the user hash or of the server hash,
  in whatever round, throws the one error "Invalid hash chain!"; the errors of the result
  number and of the balance carry numbers, not the round id. When all bets have passed
  and the session ended regularly with another settled balance, the run throws the error
  of the session balance.
\<close>

theorem failure_stops_run:
  "(int (length bets) \<noteq> (if re then r - 1 else r) \<longrightarrow>
      verifyBets L sid bets r bal sh uh re ca sa =
        (Inl (InvalidNumberOfBets (length bets) (if re then r - 1 else r)), bets)) \<and>
   (int (length bets) = (if re then r - 1 else r) \<and> bets \<noteq> [] \<longrightarrow>
      (sh \<noteq> serverHash (hd (rev bets)) \<longrightarrow>
         verifyBets L sid bets r bal sh uh re ca sa =
           (Inl InvalidFirstBetServerHash, rev bets)) \<and>
      (sh = serverHash (hd (rev bets)) \<and> uh \<noteq> userHash (hd (rev bets)) \<longrightarrow>
         verifyBets L sid bets r bal sh uh re ca sa =
           (Inl InvalidFirstBetUserHash, rev bets))) \<and>
   (\<forall>k v. int (length bets) = (if re then r - 1 else r) \<and> k < length bets \<and>
          sh = serverHash (hd (rev bets)) \<and> uh = userHash (hd (rev bets)) \<and>
          verifyLoop L bal ca sa 0 initialVars (take k (rev bets)) = Inr v \<longrightarrow>
      (\<forall>e. verifyBet L bal ca sa k v (rev bets ! k) = Inl e \<longrightarrow>
         verifyBets L sid bets r bal sh uh re ca sa = (Inl e, rev bets)) \<and>
      (\<not> serverSigValid L ca sa (rev bets ! k) \<longrightarrow>
         verifyBets L sid bets r bal sh uh re ca sa =
           (Inl (InvalidServerSignature (roundId (rev bets ! k))), rev bets)) \<and>
      (serverSigValid L ca sa (rev bets ! k) \<and> \<not> userSigValid L ca (rev bets ! k) \<longrightarrow>
         verifyBets L sid bets r bal sh uh re ca sa =
           (Inl (InvalidPlayerSignature (roundId (rev bets ! k))), rev bets)) \<and>
      (serverSigValid L ca sa (rev bets ! k) \<and> userSigValid L ca (rev bets ! k) \<and>
       \<not> userSeedValid L (rev bets ! k) \<longrightarrow>
         verifyBets L sid bets r bal sh uh re ca sa =
           (Inl (InvalidUserSeed (roundId (rev bets ! k))), rev bets)) \<and>
      (serverSigValid L ca sa (rev bets ! k) \<and> userSigValid L ca (rev bets ! k) \<and>
       userSeedValid L (rev bets ! k) \<and> \<not> serverSeedValid L (rev bets ! k) \<longrightarrow>
         verifyBets L sid bets r bal sh uh re ca sa =
           (Inl (InvalidServerSeed (roundId (rev bets ! k))), rev bets)) \<and>
      (serverSigValid L ca sa (rev bets ! k) \<and> userSigValid L ca (rev bets ! k) \<and>
       userSeedValid L (rev bets ! k) \<and> serverSeedValid L (rev bets ! k) \<and> 0 < k \<and>
       \<not> (userLinked L (rev bets ! (k - 1)) (rev bets ! k) \<and>
          serverLinked L (rev bets ! (k - 1)) (rev bets ! k)) \<longrightarrow>
         verifyBets L sid bets r bal sh uh re ca sa = (Inl InvalidHashChain, rev bets)) \<and>
      (serverSigValid L ca sa (rev bets ! k) \<and> userSigValid L ca (rev bets ! k) \<and>
       userSeedValid L (rev bets ! k) \<and> serverSeedValid L (rev bets ! k) \<and>
       (0 < k \<longrightarrow> userLinked L (rev bets ! (k - 1)) (rev bets ! k) \<and>
                  serverLinked L (rev bets ! (k - 1)) (rev bets ! k)) \<and>
       \<not> resultValid L (rev bets ! k) \<longrightarrow>
         verifyBets L sid bets r bal sh uh re ca sa =
           (Inl (InvalidNumber (resultNum (rev bets ! k))
                  (calcResultNumber L (gameType (rev bets ! k)) (serverSeed (rev bets ! k))
                     (userSeed (rev bets ! k)) (num (rev bets ! k)))),
            rev bets)) \<and>
      (serverSigValid L ca sa (rev bets ! k) \<and> userSigValid L ca (rev bets ! k) \<and>
       userSeedValid L (rev bets ! k) \<and> serverSeedValid L (rev bets ! k) \<and>
       (0 < k \<longrightarrow> userLinked L (rev bets ! (k - 1)) (rev bets ! k) \<and>
                  serverLinked L (rev bets ! (k - 1)) (rev bets ! k)) \<and>
       resultValid L (rev bets ! k) \<and> balance (rev bets ! k) \<noteq> prevBalance v \<longrightarrow>
         verifyBets L sid bets r bal sh uh re ca sa =
           (Inl (InvalidBalance (balance (rev bets ! k)) bal), rev bets))) \<and>
   (\<forall>v. int (length bets) = (if re then r - 1 else r) \<and> bets \<noteq> [] \<and>
        sh = serverHash (hd (rev bets)) \<and> uh = userHash (hd (rev bets)) \<and>
        verifyLoop L bal ca sa 0 initialVars (rev bets) = Inr v \<and>
        re \<and> bal \<noteq> prevBalance v \<longrightarrow>
      verifyBets L sid bets r bal sh uh re ca sa =
        (Inl (InvalidGameSessionBalance (prevBalance v) bal), rev bets))"
proof -
  have count: "verifyBets L sid bets r bal sh uh re ca sa =
        (Inl (InvalidNumberOfBets (length bets) (if re then r - 1 else r)), bets)"
    if "int (length bets) \<noteq> (if re then r - 1 else r)"
    using that by (rule verifyBets_count_error)
  have anchors: "(sh \<noteq> serverHash (hd (rev bets)) \<longrightarrow>
         verifyBets L sid bets r bal sh uh re ca sa =
           (Inl InvalidFirstBetServerHash, rev bets)) \<and>
      (sh = serverHash (hd (rev bets)) \<and> uh \<noteq> userHash (hd (rev bets)) \<longrightarrow>
         verifyBets L sid bets r bal sh uh re ca sa =
           (Inl InvalidFirstBetUserHash, rev bets))"
    if "int (length bets) = (if re then r - 1 else r) \<and> bets \<noteq> []"
  proof -
    from that have c: "int (length bets) = (if re then r - 1 else r)" and ne: "bets \<noteq> []"
      by simp_all
    show ?thesis
      unfolding verifyBets_nonempty [OF c ne] by simp
  qed
  have body: "(\<forall>e. verifyBet L bal ca sa k v (rev bets ! k) = Inl e \<longrightarrow>
         verifyBets L sid bets r bal sh uh re ca sa = (Inl e, rev bets)) \<and>
      (\<not> serverSigValid L ca sa (rev bets ! k) \<longrightarrow>
         verifyBets L sid bets r bal sh uh re ca sa =
           (Inl (InvalidServerSignature (roundId (rev bets ! k))), rev bets)) \<and>
      (serverSigValid L ca sa (rev bets ! k) \<and> \<not> userSigValid L ca (rev bets ! k) \<longrightarrow>
         verifyBets L sid bets r bal sh uh re ca sa =
           (Inl (InvalidPlayerSignature (roundId (rev bets ! k))), rev bets)) \<and>
      (serverSigValid L ca sa (rev bets ! k) \<and> userSigValid L ca (rev bets ! k) \<and>
       \<not> userSeedValid L (rev bets ! k) \<longrightarrow>
         verifyBets L sid bets r bal sh uh re ca sa =
           (Inl (InvalidUserSeed (roundId (rev bets ! k))), rev bets)) \<and>
      (serverSigValid L ca sa (rev bets ! k) \<and> userSigValid L ca (rev bets ! k) \<and>
       userSeedValid L (rev bets ! k) \<and> \<not> serverSeedValid L (rev bets ! k) \<longrightarrow>
         verifyBets L sid bets r bal sh uh re ca sa =
           (Inl (InvalidServerSeed (roundId (rev bets ! k))), rev bets)) \<and>
      (serverSigValid L ca sa (rev bets ! k) \<and> userSigValid L ca (rev bets ! k) \<and>
       userSeedValid L (rev bets ! k) \<and> serverSeedValid L (rev bets ! k) \<and> 0 < k \<and>
       \<not> (userLinked L (rev bets ! (k - 1)) (rev bets ! k) \<and>
          serverLinked L (rev bets ! (k - 1)) (rev bets ! k)) \<longrightarrow>
         verifyBets L sid bets r bal sh uh re ca sa = (Inl InvalidHashChain, rev bets)) \<and>
      (serverSigValid L ca sa (rev bets ! k) \<and> userSigValid L ca (rev bets ! k) \<and>
       userSeedValid L (rev bets ! k) \<and> serverSeedValid L (rev bets ! k) \<and>
       (0 < k \<longrightarrow> userLinked L (rev bets ! (k - 1)) (rev bets ! k) \<and>
                  serverLinked L (rev bets ! (k - 1)) (rev bets ! k)) \<and>
       \<not> resultValid L (rev bets ! k) \<longrightarrow>
         verifyBets L sid bets r bal sh uh re ca sa =
           (Inl (InvalidNumber (resultNum (rev bets ! k))
                  (calcResultNumber L (gameType (rev bets ! k)) (serverSeed (rev bets ! k))
                     (userSeed (rev bets ! k)) (num (rev bets ! k)))),
            rev bets)) \<and>
      (serverSigValid L ca sa (rev bets ! k) \<and> userSigValid L ca (rev bets ! k) \<and>
       userSeedValid L (rev bets ! k) \<and> serverSeedValid L (rev bets ! k) \<and>
       (0 < k \<longrightarrow> userLinked L (rev bets ! (k - 1)) (rev bets ! k) \<and>
                  serverLinked L (rev bets ! (k - 1)) (rev bets ! k)) \<and>
       resultValid L (rev bets ! k) \<and> balance (rev bets ! k) \<noteq> prevBalance v \<longrightarrow>
         verifyBets L sid bets r bal sh uh re ca sa =
           (Inl (InvalidBalance (balance (rev bets ! k)) bal), rev bets))"
    if pre: "int (length bets) = (if re then r - 1 else r) \<and> k < length bets \<and>
          sh = serverHash (hd (rev bets)) \<and> uh = userHash (hd (rev bets)) \<and>
          verifyLoop L bal ca sa 0 initialVars (take k (rev bets)) = Inr v" for k v
  proof -
    from pre have k': "k < length (rev bets)" by simp
    from pre have loop: "verifyLoop L bal ca sa 0 initialVars (take k (rev bets)) = Inr v"
      by simp
    from verifyLoop_vars [OF loop] have v: "v = varsAfter L initialVars (take k (rev bets))" .
    then have run: "prevBalance v = runningBalance L 0 (take k (rev bets))"
      by (simp add: prevBalance_varsAfter initialVars_def)
    note at = verifyBet_at [OF k', of L bal ca sa, folded v]
    from pre have stops: "\<And>e. verifyBet L bal ca sa k v (rev bets ! k) = Inl e \<Longrightarrow>
        verifyBets L sid bets r bal sh uh re ca sa = (Inl e, rev bets)"
      by (blast intro: verifyBets_first_error)
    have b1: "verifyBets L sid bets r bal sh uh re ca sa =
           (Inl (InvalidServerSignature (roundId (rev bets ! k))), rev bets)"
      if "\<not> serverSigValid L ca sa (rev bets ! k)"
      using that by (intro stops) (simp add: at)
    have b2: "verifyBets L sid bets r bal sh uh re ca sa =
           (Inl (InvalidPlayerSignature (roundId (rev bets ! k))), rev bets)"
      if "serverSigValid L ca sa (rev bets ! k) \<and> \<not> userSigValid L ca (rev bets ! k)"
      using that by (intro stops) (simp add: at)
    have b3: "verifyBets L sid bets r bal sh uh re ca sa =
           (Inl (InvalidUserSeed (roundId (rev bets ! k))), rev bets)"
      if "serverSigValid L ca sa (rev bets ! k) \<and> userSigValid L ca (rev bets ! k) \<and>
       \<not> userSeedValid L (rev bets ! k)"
      using that by (intro stops) (simp add: at)
    have b4: "verifyBets L sid bets r bal sh uh re ca sa =
           (Inl (InvalidServerSeed (roundId (rev bets ! k))), rev bets)"
      if "serverSigValid L ca sa (rev bets ! k) \<and> userSigValid L ca (rev bets ! k) \<and>
       userSeedValid L (rev bets ! k) \<and> \<not> serverSeedValid L (rev bets ! k)"
      using that by (intro stops) (simp add: at)
    have b5: "verifyBets L sid bets r bal sh uh re ca sa = (Inl InvalidHashChain, rev bets)"
      if "serverSigValid L ca sa (rev bets ! k) \<and> userSigValid L ca (rev bets ! k) \<and>
       userSeedValid L (rev bets ! k) \<and> serverSeedValid L (rev bets ! k) \<and> 0 < k \<and>
       \<not> (userLinked L (rev bets ! (k - 1)) (rev bets ! k) \<and>
          serverLinked L (rev bets ! (k - 1)) (rev bets ! k))"
    proof -
      have "verifyBet L bal ca sa k v (rev bets ! k) = Inl InvalidHashChain"
        unfolding at using that by auto
      then show ?thesis by (rule stops)
    qed
    have b6: "verifyBets L sid bets r bal sh uh re ca sa =
           (Inl (InvalidNumber (resultNum (rev bets ! k))
                  (calcResultNumber L (gameType (rev bets ! k)) (serverSeed (rev bets ! k))
                     (userSeed (rev bets ! k)) (num (rev bets ! k)))),
            rev bets)"
      if "serverSigValid L ca sa (rev bets ! k) \<and> userSigValid L ca (rev bets ! k) \<and>
       userSeedValid L (rev bets ! k) \<and> serverSeedValid L (rev bets ! k) \<and>
       (0 < k \<longrightarrow> userLinked L (rev bets ! (k - 1)) (rev bets ! k) \<and>
                  serverLinked L (rev bets ! (k - 1)) (rev bets ! k)) \<and>
       \<not> resultValid L (rev bets ! k)"
    proof -
      have "verifyBet L bal ca sa k v (rev bets ! k) =
          Inl (InvalidNumber (resultNum (rev bets ! k))
                  (calcResultNumber L (gameType (rev bets ! k)) (serverSeed (rev bets ! k))
                     (userSeed (rev bets ! k)) (num (rev bets ! k))))"
        unfolding at using that by (cases "0 < k") simp_all
      then show ?thesis by (rule stops)
    qed
    have b7: "verifyBets L sid bets r bal sh uh re ca sa =
           (Inl (InvalidBalance (balance (rev bets ! k)) bal), rev bets)"
      if "serverSigValid L ca sa (rev bets ! k) \<and> userSigValid L ca (rev bets ! k) \<and>
       userSeedValid L (rev bets ! k) \<and> serverSeedValid L (rev bets ! k) \<and>
       (0 < k \<longrightarrow> userLinked L (rev bets ! (k - 1)) (rev bets ! k) \<and>
                  serverLinked L (rev bets ! (k - 1)) (rev bets ! k)) \<and>
       resultValid L (rev bets ! k) \<and> balance (rev bets ! k) \<noteq> prevBalance v"
    proof -
      have "verifyBet L bal ca sa k v (rev bets ! k) =
          Inl (InvalidBalance (balance (rev bets ! k)) bal)"
        unfolding at using that run by (cases "0 < k") simp_all
      then show ?thesis by (rule stops)
    qed
    from stops b1 b2 b3 b4 b5 b6 b7 show ?thesis by blast
  qed
  have final: "verifyBets L sid bets r bal sh uh re ca sa =
        (Inl (InvalidGameSessionBalance (prevBalance v) bal), rev bets)"
    if "int (length bets) = (if re then r - 1 else r) \<and> bets \<noteq> [] \<and>
        sh = serverHash (hd (rev bets)) \<and> uh = userHash (hd (rev bets)) \<and>
        verifyLoop L bal ca sa 0 initialVars (rev bets) = Inr v \<and>
        re \<and> bal \<noteq> prevBalance v" for v
  proof -
    from that have c: "int (length bets) = (if re then r - 1 else r)" and ne: "bets \<noteq> []"
      by simp_all
    from that show ?thesis
      unfolding verifyBets_nonempty [OF c ne] by simp
  qed
  from count anchors body final show ?thesis by blast
qed

theorem failure_stops_run_witness:
  "int (length [exBet2]) \<noteq> (if True then 3 - 1 else 3) \<and>
   verifyBets exLib 9 [exBet2] 3 250 ''hhha'' ''hhhb'' True CONTRACT_ADDRESS_OLD SERVER_ADDRESS_OLD =
     (Inl (InvalidNumberOfBets 1 2), [exBet2]) \<and>
   int (length exBets) = (if True then 4 - 1 else 4) \<and>
   exBets \<noteq> [] \<and>
   ''x'' \<noteq> serverHash (hd (rev exBets)) \<and>
   verifyBets exLib 9 exBets 4 400 ''x'' ''hhhb'' True CONTRACT_ADDRESS_OLD SERVER_ADDRESS_OLD =
     (Inl InvalidFirstBetServerHash, rev exBets) \<and>
   ''hhha'' = serverHash (hd (rev exBets)) \<and>
   ''y'' \<noteq> userHash (hd (rev exBets)) \<and>
   verifyBets exLib 9 exBets 4 400 ''hhha'' ''y'' True CONTRACT_ADDRESS_OLD SERVER_ADDRESS_OLD =
     (Inl InvalidFirstBetUserHash, rev exBets) \<and>
   int (length exForgedSig) = (if True then 4 - 1 else 4) \<and>
   1 < length exForgedSig \<and>
   ''hhha'' = serverHash (hd (rev exForgedSig)) \<and>
   ''hhhb'' = userHash (hd (rev exForgedSig)) \<and>
   verifyLoop exLib 400 CONTRACT_ADDRESS_OLD SERVER_ADDRESS_OLD 0 initialVars (take 1 (rev exForgedSig)) =
     Inr \<lparr> userPrevHash = Some ''hhhb'', serverPrevHash = Some ''hhha'', prevBalance = 100 \<rparr> \<and>
   \<not> serverSigValid exLib CONTRACT_ADDRESS_OLD SERVER_ADDRESS_OLD (rev exForgedSig ! 1) \<and>
   verifyBets exLib 9 exForgedSig 4 400 ''hhha'' ''hhhb'' True CONTRACT_ADDRESS_OLD SERVER_ADDRESS_OLD =
     (Inl (InvalidServerSignature 2), rev exForgedSig) \<and>
   int (length exForgedUserSig) = (if True then 4 - 1 else 4) \<and>
   1 < length exForgedUserSig \<and>
   ''hhha'' = serverHash (hd (rev exForgedUserSig)) \<and>
   ''hhhb'' = userHash (hd (rev exForgedUserSig)) \<and>
   verifyLoop exLib 400 CONTRACT_ADDRESS_OLD SERVER_ADDRESS_OLD 0 initialVars (take 1 (rev exForgedUserSig)) =
     Inr \<lparr> userPrevHash = Some ''hhhb'', serverPrevHash = Some ''hhha'', prevBalance = 100 \<rparr> \<and>
   serverSigValid exLib CONTRACT_ADDRESS_OLD SERVER_ADDRESS_OLD (rev exForgedUserSig ! 1) \<and>
   \<not> userSigValid exLib CONTRACT_ADDRESS_OLD (rev exForgedUserSig ! 1) \<and>
   verifyBets exLib 9 exForgedUserSig 4 400 ''hhha'' ''hhhb'' True CONTRACT_ADDRESS_OLD SERVER_ADDRESS_OLD =
     (Inl (InvalidPlayerSignature 2), rev exForgedUserSig) \<and>
   int (length exWrongUserSeed) = (if True then 4 - 1 else 4) \<and>
   1 < length exWrongUserSeed \<and>
   ''hhha'' = serverHash (hd (rev exWrongUserSeed)) \<and>
   ''hhhb'' = userHash (hd (rev exWrongUserSeed)) \<and>
   verifyLoop exLib 400 CONTRACT_ADDRESS_OLD SERVER_ADDRESS_OLD 0 initialVars (take 1 (rev exWrongUserSeed)) =
     Inr \<lparr> userPrevHash = Some ''hhhb'', serverPrevHash = Some ''hhha'', prevBalance = 100 \<rparr> \<and>
   serverSigValid exLib CONTRACT_ADDRESS_OLD SERVER_ADDRESS_OLD (rev exWrongUserSeed ! 1) \<and>
   userSigValid exLib CONTRACT_ADDRESS_OLD (rev exWrongUserSeed ! 1) \<and>
   \<not> userSeedValid exLib (rev exWrongUserSeed ! 1) \<and>
   verifyBets exLib 9 exWrongUserSeed 4 400 ''hhha'' ''hhhb'' True CONTRACT_ADDRESS_OLD SERVER_ADDRESS_OLD =
     (Inl (InvalidUserSeed 2), rev exWrongUserSeed) \<and>
   int (length exWrongServerSeed) = (if True then 4 - 1 else 4) \<and>
   1 < length exWrongServerSeed \<and>
   ''hhha'' = serverHash (hd (rev exWrongServerSeed)) \<and>
   ''hhhb'' = userHash (hd (rev exWrongServerSeed)) \<and>
   verifyLoop exLib 400 CONTRACT_ADDRESS_OLD SERVER_ADDRESS_OLD 0 initialVars (take 1 (rev exWrongServerSeed)) =
     Inr \<lparr> userPrevHash = Some ''hhhb'', serverPrevHash = Some ''hhha'', prevBalance = 100 \<rparr> \<and>
   serverSigValid exLib CONTRACT_ADDRESS_OLD SERVER_ADDRESS_OLD (rev exWrongServerSeed ! 1) \<and>
   userSigValid exLib CONTRACT_ADDRESS_OLD (rev exWrongServerSeed ! 1) \<and>
   userSeedValid exLib (rev exWrongServerSeed ! 1) \<and>
   \<not> serverSeedValid exLib (rev exWrongServerSeed ! 1) \<and>
   verifyBets exLib 9 exWrongServerSeed 4 400 ''hhha'' ''hhhb'' True CONTRACT_ADDRESS_OLD SERVER_ADDRESS_OLD =
     (Inl (InvalidServerSeed 2), rev exWrongServerSeed) \<and>
   int (length exUserChainBroken) = (if True then 3 - 1 else 3) \<and>
   1 < length exUserChainBroken \<and>
   ''hhha'' = serverHash (hd (rev exUserChainBroken)) \<and>
   ''hhhb'' = userHash (hd (rev exUserChainBroken)) \<and>
   verifyLoop exLib 250 CONTRACT_ADDRESS_OLD SERVER_ADDRESS_OLD 0 initialVars (take 1 (rev exUserChainBroken)) =
     Inr \<lparr> userPrevHash = Some ''hhhb'', serverPrevHash = Some ''hhha'', prevBalance = 100 \<rparr> \<and>
   serverSigValid exLib CONTRACT_ADDRESS_OLD SERVER_ADDRESS_OLD (rev exUserChainBroken ! 1) \<and>
   userSigValid exLib CONTRACT_ADDRESS_OLD (rev exUserChainBroken ! 1) \<and>
   userSeedValid exLib (rev exUserChainBroken ! 1) \<and>
   serverSeedValid exLib (rev exUserChainBroken ! 1) \<and>
   (0::nat) < 1 \<and>
   \<not> (userLinked exLib (rev exUserChainBroken ! (1 - 1)) (rev exUserChainBroken ! 1) \<and>
      serverLinked exLib (rev exUserChainBroken ! (1 - 1)) (rev exUserChainBroken ! 1)) \<and>
   verifyBets exLib 9 exUserChainBroken 3 250 ''hhha'' ''hhhb'' True CONTRACT_ADDRESS_OLD SERVER_ADDRESS_OLD =
     (Inl (InvalidHashChain), rev exUserChainBroken) \<and>
   int (length exWrongResult) = (if True then 4 - 1 else 4) \<and>
   1 < length exWrongResult \<and>
   ''hhha'' = serverHash (hd (rev exWrongResult)) \<and>
   ''hhhb'' = userHash (hd (rev exWrongResult)) \<and>
   verifyLoop exLib 400 CONTRACT_ADDRESS_OLD SERVER_ADDRESS_OLD 0 initialVars (take 1 (rev exWrongResult)) =
     Inr \<lparr> userPrevHash = Some ''hhhb'', serverPrevHash = Some ''hhha'', prevBalance = 100 \<rparr> \<and>
   serverSigValid exLib CONTRACT_ADDRESS_OLD SERVER_ADDRESS_OLD (rev exWrongResult ! 1) \<and>
   userSigValid exLib CONTRACT_ADDRESS_OLD (rev exWrongResult ! 1) \<and>
   userSeedValid exLib (rev exWrongResult ! 1) \<and>
   serverSeedValid exLib (rev exWrongResult ! 1) \<and>
   userLinked exLib (rev exWrongResult ! (1 - 1)) (rev exWrongResult ! 1) \<and>
   serverLinked exLib (rev exWrongResult ! (1 - 1)) (rev exWrongResult ! 1) \<and>
   \<not> resultValid exLib (rev exWrongResult ! 1) \<and>
   verifyBets exLib 9 exWrongResult 4 400 ''hhha'' ''hhhb'' True CONTRACT_ADDRESS_OLD SERVER_ADDRESS_OLD =
     (Inl (InvalidNumber 4 3), rev exWrongResult) \<and>
   int (length exWrongBalance) = (if True then 4 - 1 else 4) \<and>
   1 < length exWrongBalance \<and>
   ''hhha'' = serverHash (hd (rev exWrongBalance)) \<and>
   ''hhhb'' = userHash (hd (rev exWrongBalance)) \<and>
   verifyLoop exLib 400 CONTRACT_ADDRESS_OLD SERVER_ADDRESS_OLD 0 initialVars (take 1 (rev exWrongBalance)) =
     Inr \<lparr> userPrevHash = Some ''hhhb'', serverPrevHash = Some ''hhha'', prevBalance = 100 \<rparr> \<and>
   serverSigValid exLib CONTRACT_ADDRESS_OLD SERVER_ADDRESS_OLD (rev exWrongBalance ! 1) \<and>
   userSigValid exLib CONTRACT_ADDRESS_OLD (rev exWrongBalance ! 1) \<and>
   userSeedValid exLib (rev exWrongBalance ! 1) \<and>
   serverSeedValid exLib (rev exWrongBalance ! 1) \<and>
   userLinked exLib (rev exWrongBalance ! (1 - 1)) (rev exWrongBalance ! 1) \<and>
   serverLinked exLib (rev exWrongBalance ! (1 - 1)) (rev exWrongBalance ! 1) \<and>
   resultValid exLib (rev exWrongBalance ! 1) \<and>
   balance (rev exWrongBalance ! 1) \<noteq> 100 \<and>
   verifyBets exLib 9 exWrongBalance 4 400 ''hhha'' ''hhhb'' True CONTRACT_ADDRESS_OLD SERVER_ADDRESS_OLD =
     (Inl (InvalidBalance 90 400), rev exWrongBalance) \<and>
   verifyLoop exLib 399 CONTRACT_ADDRESS_OLD SERVER_ADDRESS_OLD 0 initialVars (rev exBets) =
     Inr \<lparr> userPrevHash = Some ''hb'', serverPrevHash = Some ''ha'', prevBalance = 400 \<rparr> \<and>
   verifyBets exLib 9 exBets 4 399 ''hhha'' ''hhhb'' True CONTRACT_ADDRESS_OLD SERVER_ADDRESS_OLD =
     (Inl (InvalidGameSessionBalance 400 399), rev exBets)"
proof -
  have cnt: "int (length [exBet2]) \<noteq> (if True then 3 - 1 else 3)"
    by simp
  from failure_stops_run [where bets = "[exBet2]" and re = True and r = 3 and L = exLib
      and sid = 9 and bal = 250 and sh = "''hhha''" and uh = "''hhhb''" and ca = CONTRACT_ADDRESS_OLD
      and sa = SERVER_ADDRESS_OLD, THEN conjunct1] cnt
  have r_cnt: "verifyBets exLib 9 [exBet2] 3 250 ''hhha'' ''hhhb'' True CONTRACT_ADDRESS_OLD SERVER_ADDRESS_OLD =
     (Inl (InvalidNumberOfBets 1 2), [exBet2])"
    by simp
  have sess: "int (length exBets) = (if True then 4 - 1 else 4) \<and> exBets \<noteq> []"
    and a1: "''x'' \<noteq> serverHash (hd (rev exBets))"
    and a2: "''hhha'' = serverHash (hd (rev exBets)) \<and> ''y'' \<noteq> userHash (hd (rev exBets))"
    by (simp_all add: exBets_def exBet1_def)
  from failure_stops_run [where bets = exBets and re = True and r = 4 and L = exLib
      and sid = 9 and bal = 400 and sh = "''x''" and uh = "''hhhb''" and ca = CONTRACT_ADDRESS_OLD
      and sa = SERVER_ADDRESS_OLD, THEN conjunct2, THEN conjunct1] sess a1
  have r_a1: "verifyBets exLib 9 exBets 4 400 ''x'' ''hhhb'' True CONTRACT_ADDRESS_OLD SERVER_ADDRESS_OLD =
     (Inl InvalidFirstBetServerHash, rev exBets)"
    by blast
  from failure_stops_run [where bets = exBets and re = True and r = 4 and L = exLib
      and sid = 9 and bal = 400 and sh = "''hhha''" and uh = "''y''" and ca = CONTRACT_ADDRESS_OLD
      and sa = SERVER_ADDRESS_OLD, THEN conjunct2, THEN conjunct1] sess a2
  have r_a2: "verifyBets exLib 9 exBets 4 400 ''hhha'' ''y'' True CONTRACT_ADDRESS_OLD SERVER_ADDRESS_OLD =
     (Inl InvalidFirstBetUserHash, rev exBets)"
    by blast
  have h1: "int (length exForgedSig) = (if True then 4 - 1 else 4) \<and>
      1 < length exForgedSig \<and>
      ''hhha'' = serverHash (hd (rev exForgedSig)) \<and>
      ''hhhb'' = userHash (hd (rev exForgedSig)) \<and>
      verifyLoop exLib 400 CONTRACT_ADDRESS_OLD SERVER_ADDRESS_OLD 0 initialVars (take 1 (rev exForgedSig)) =
        Inr \<lparr> userPrevHash = Some ''hhhb'', serverPrevHash = Some ''hhha'', prevBalance = 100 \<rparr>"
    by (simp add: exForgedSig_def ex_defs)
  have d1: "\<not> serverSigValid exLib CONTRACT_ADDRESS_OLD SERVER_ADDRESS_OLD (rev exForgedSig ! 1)"
    by (simp add: exForgedSig_def ex_defs SERVER_ADDRESS_OLD_def)
  have f1: "roundId (rev exForgedSig ! 1) = 2"
    by (simp add: exForgedSig_def ex_defs)
  from failure_stops_run [where bets = exForgedSig and re = True and r = 4 and L = exLib
      and sid = 9 and bal = 400 and sh = "''hhha''" and uh = "''hhhb''" and ca = CONTRACT_ADDRESS_OLD
      and sa = SERVER_ADDRESS_OLD, THEN conjunct2, THEN conjunct2, THEN conjunct1, rule_format,
      of 1 "\<lparr> userPrevHash = Some ''hhhb'', serverPrevHash = Some ''hhha'', prevBalance = 100 \<rparr>", OF h1] d1
  have "verifyBets exLib 9 exForgedSig 4 400 ''hhha'' ''hhhb'' True CONTRACT_ADDRESS_OLD SERVER_ADDRESS_OLD =
      (Inl (InvalidServerSignature (roundId (rev exForgedSig ! 1))), rev exForgedSig)"
    by simp
  with f1 have r1: "verifyBets exLib 9 exForgedSig 4 400 ''hhha'' ''hhhb'' True CONTRACT_ADDRESS_OLD SERVER_ADDRESS_OLD =
      (Inl (InvalidServerSignature 2), rev exForgedSig)"
    by simp
  have h2: "int (length exForgedUserSig) = (if True then 4 - 1 else 4) \<and>
      1 < length exForgedUserSig \<and>
      ''hhha'' = serverHash (hd (rev exForgedUserSig)) \<and>
      ''hhhb'' = userHash (hd (rev exForgedUserSig)) \<and>
      verifyLoop exLib 400 CONTRACT_ADDRESS_OLD SERVER_ADDRESS_OLD 0 initialVars (take 1 (rev exForgedUserSig)) =
        Inr \<lparr> userPrevHash = Some ''hhhb'', serverPrevHash = Some ''hhha'', prevBalance = 100 \<rparr>"
    by (simp add: exForgedUserSig_def ex_defs)
  have d2: "serverSigValid exLib CONTRACT_ADDRESS_OLD SERVER_ADDRESS_OLD (rev exForgedUserSig ! 1) \<and>
      \<not> userSigValid exLib CONTRACT_ADDRESS_OLD (rev exForgedUserSig ! 1)"
    by (simp add: exForgedUserSig_def ex_defs SERVER_ADDRESS_OLD_def)
  have f2: "roundId (rev exForgedUserSig ! 1) = 2"
    by (simp add: exForgedUserSig_def ex_defs)
  from failure_stops_run [where bets = exForgedUserSig and re = True and r = 4 and L = exLib
      and sid = 9 and bal = 400 and sh = "''hhha''" and uh = "''hhhb''" and ca = CONTRACT_ADDRESS_OLD
      and sa = SERVER_ADDRESS_OLD, THEN conjunct2, THEN conjunct2, THEN conjunct1, rule_format,
      of 1 "\<lparr> userPrevHash = Some ''hhhb'', serverPrevHash = Some ''hhha'', prevBalance = 100 \<rparr>", OF h2] d2
  have "verifyBets exLib 9 exForgedUserSig 4 400 ''hhha'' ''hhhb'' True CONTRACT_ADDRESS_OLD SERVER_ADDRESS_OLD =
      (Inl (InvalidPlayerSignature (roundId (rev exForgedUserSig ! 1))), rev exForgedUserSig)"
    by simp
  with f2 have r2: "verifyBets exLib 9 exForgedUserSig 4 400 ''hhha'' ''hhhb'' True CONTRACT_ADDRESS_OLD SERVER_ADDRESS_OLD =
      (Inl (InvalidPlayerSignature 2), rev exForgedUserSig)"
    by simp
  have h3: "int (length exWrongUserSeed) = (if True then 4 - 1 else 4) \<and>
      1 < length exWrongUserSeed \<and>
      ''hhha'' = serverHash (hd (rev exWrongUserSeed)) \<and>
      ''hhhb'' = userHash (hd (rev exWrongUserSeed)) \<and>
      verifyLoop exLib 400 CONTRACT_ADDRESS_OLD SERVER_ADDRESS_OLD 0 initialVars (take 1 (rev exWrongUserSeed)) =
        Inr \<lparr> userPrevHash = Some ''hhhb'', serverPrevHash = Some ''hhha'', prevBalance = 100 \<rparr>"
    by (simp add: exWrongUserSeed_def ex_defs)
  have d3: "serverSigValid exLib CONTRACT_ADDRESS_OLD SERVER_ADDRESS_OLD (rev exWrongUserSeed ! 1) \<and>
      userSigValid exLib CONTRACT_ADDRESS_OLD (rev exWrongUserSeed ! 1) \<and>
      \<not> userSeedValid exLib (rev exWrongUserSeed ! 1)"
    by (simp add: exWrongUserSeed_def ex_defs SERVER_ADDRESS_OLD_def)
  have f3: "roundId (rev exWrongUserSeed ! 1) = 2"
    by (simp add: exWrongUserSeed_def ex_defs)
  from failure_stops_run [where bets = exWrongUserSeed and re = True and r = 4 and L = exLib
      and sid = 9 and bal = 400 and sh = "''hhha''" and uh = "''hhhb''" and ca = CONTRACT_ADDRESS_OLD
      and sa = SERVER_ADDRESS_OLD, THEN conjunct2, THEN conjunct2, THEN conjunct1, rule_format,
      of 1 "\<lparr> userPrevHash = Some ''hhhb'', serverPrevHash = Some ''hhha'', prevBalance = 100 \<rparr>", OF h3] d3
  have "verifyBets exLib 9 exWrongUserSeed 4 400 ''hhha'' ''hhhb'' True CONTRACT_ADDRESS_OLD SERVER_ADDRESS_OLD =
      (Inl (InvalidUserSeed (roundId (rev exWrongUserSeed ! 1))), rev exWrongUserSeed)"
    by simp
  with f3 have r3: "verifyBets exLib 9 exWrongUserSeed 4 400 ''hhha'' ''hhhb'' True CONTRACT_ADDRESS_OLD SERVER_ADDRESS_OLD =
      (Inl (InvalidUserSeed 2), rev exWrongUserSeed)"
    by simp
  have h4: "int (length exWrongServerSeed) = (if True then 4 - 1 else 4) \<and>
      1 < length exWrongServerSeed \<and>
      ''hhha'' = serverHash (hd (rev exWrongServerSeed)) \<and>
      ''hhhb'' = userHash (hd (rev exWrongServerSeed)) \<and>
      verifyLoop exLib 400 CONTRACT_ADDRESS_OLD SERVER_ADDRESS_OLD 0 initialVars (take 1 (rev exWrongServerSeed)) =
        Inr \<lparr> userPrevHash = Some ''hhhb'', serverPrevHash = Some ''hhha'', prevBalance = 100 \<rparr>"
    by (simp add: exWrongServerSeed_def ex_defs)
  have d4: "serverSigValid exLib CONTRACT_ADDRESS_OLD SERVER_ADDRESS_OLD (rev exWrongServerSeed ! 1) \<and>
      userSigValid exLib CONTRACT_ADDRESS_OLD (rev exWrongServerSeed ! 1) \<and>
      userSeedValid exLib (rev exWrongServerSeed ! 1) \<and>
      \<not> serverSeedValid exLib (rev exWrongServerSeed ! 1)"
    by (simp add: exWrongServerSeed_def ex_defs SERVER_ADDRESS_OLD_def)
  have f4: "roundId (rev exWrongServerSeed ! 1) = 2"
    by (simp add: exWrongServerSeed_def ex_defs)
  from failure_stops_run [where bets = exWrongServerSeed and re = True and r = 4 and L = exLib
      and sid = 9 and bal = 400 and sh = "''hhha''" and uh = "''hhhb''" and ca = CONTRACT_ADDRESS_OLD
      and sa = SERVER_ADDRESS_OLD, THEN conjunct2, THEN conjunct2, THEN conjunct1, rule_format,
      of 1 "\<lparr> userPrevHash = Some ''hhhb'', serverPrevHash = Some ''hhha'', prevBalance = 100 \<rparr>", OF h4] d4
  have "verifyBets exLib 9 exWrongServerSeed 4 400 ''hhha'' ''hhhb'' True CONTRACT_ADDRESS_OLD SERVER_ADDRESS_OLD =
      (Inl (InvalidServerSeed (roundId (rev exWrongServerSeed ! 1))), rev exWrongServerSeed)"
    by simp
  with f4 have r4: "verifyBets exLib 9 exWrongServerSeed 4 400 ''hhha'' ''hhhb'' True CONTRACT_ADDRESS_OLD SERVER_ADDRESS_OLD =
      (Inl (InvalidServerSeed 2), rev exWrongServerSeed)"
    by simp
  have h5: "int (length exUserChainBroken) = (if True then 3 - 1 else 3) \<and>
      1 < length exUserChainBroken \<and>
      ''hhha'' = serverHash (hd (rev exUserChainBroken)) \<and>
      ''hhhb'' = userHash (hd (rev exUserChainBroken)) \<and>
      verifyLoop exLib 250 CONTRACT_ADDRESS_OLD SERVER_ADDRESS_OLD 0 initialVars (take 1 (rev exUserChainBroken)) =
        Inr \<lparr> userPrevHash = Some ''hhhb'', serverPrevHash = Some ''hhha'', prevBalance = 100 \<rparr>"
    by (simp add: exUserChainBroken_def ex_defs)
  have d5: "serverSigValid exLib CONTRACT_ADDRESS_OLD SERVER_ADDRESS_OLD (rev exUserChainBroken ! 1) \<and>
      userSigValid exLib CONTRACT_ADDRESS_OLD (rev exUserChainBroken ! 1) \<and>
      userSeedValid exLib (rev exUserChainBroken ! 1) \<and>
      serverSeedValid exLib (rev exUserChainBroken ! 1) \<and>
      (0::nat) < 1 \<and>
      \<not> (userLinked exLib (rev exUserChainBroken ! (1 - 1)) (rev exUserChainBroken ! 1) \<and>
         serverLinked exLib (rev exUserChainBroken ! (1 - 1)) (rev exUserChainBroken ! 1))"
    by (simp add: exUserChainBroken_def ex_defs SERVER_ADDRESS_OLD_def)
  from failure_stops_run [where bets = exUserChainBroken and re = True and r = 3 and L = exLib
      and sid = 9 and bal = 250 and sh = "''hhha''" and uh = "''hhhb''" and ca = CONTRACT_ADDRESS_OLD
      and sa = SERVER_ADDRESS_OLD, THEN conjunct2, THEN conjunct2, THEN conjunct1, rule_format,
      of 1 "\<lparr> userPrevHash = Some ''hhhb'', serverPrevHash = Some ''hhha'', prevBalance = 100 \<rparr>", OF h5] d5
  have "verifyBets exLib 9 exUserChainBroken 3 250 ''hhha'' ''hhhb'' True CONTRACT_ADDRESS_OLD SERVER_ADDRESS_OLD =
      (Inl (InvalidHashChain), rev exUserChainBroken)"
    by simp
  then have r5: "verifyBets exLib 9 exUserChainBroken 3 250 ''hhha'' ''hhhb'' True CONTRACT_ADDRESS_OLD SERVER_ADDRESS_OLD =
      (Inl (InvalidHashChain), rev exUserChainBroken)" .
  have h6: "int (length exWrongResult) = (if True then 4 - 1 else 4) \<and>
      1 < length exWrongResult \<and>
      ''hhha'' = serverHash (hd (rev exWrongResult)) \<and>
      ''hhhb'' = userHash (hd (rev exWrongResult)) \<and>
      verifyLoop exLib 400 CONTRACT_ADDRESS_OLD SERVER_ADDRESS_OLD 0 initialVars (take 1 (rev exWrongResult)) =
        Inr \<lparr> userPrevHash = Some ''hhhb'', serverPrevHash = Some ''hhha'', prevBalance = 100 \<rparr>"
    by (simp add: exWrongResult_def ex_defs)
  have d6: "serverSigValid exLib CONTRACT_ADDRESS_OLD SERVER_ADDRESS_OLD (rev exWrongResult ! 1) \<and>
      userSigValid exLib CONTRACT_ADDRESS_OLD (rev exWrongResult ! 1) \<and>
      userSeedValid exLib (rev exWrongResult ! 1) \<and>
      serverSeedValid exLib (rev exWrongResult ! 1) \<and>
      userLinked exLib (rev exWrongResult ! (1 - 1)) (rev exWrongResult ! 1) \<and>
      serverLinked exLib (rev exWrongResult ! (1 - 1)) (rev exWrongResult ! 1) \<and>
      \<not> resultValid exLib (rev exWrongResult ! 1)"
    by (simp add: exWrongResult_def ex_defs SERVER_ADDRESS_OLD_def)
  have f6: "resultNum (rev exWrongResult ! 1) = 4 \<and>
      calcResultNumber exLib (gameType (rev exWrongResult ! 1)) (serverSeed (rev exWrongResult ! 1))
          (userSeed (rev exWrongResult ! 1)) (num (rev exWrongResult ! 1)) = 3"
    by (simp add: exWrongResult_def ex_defs)
  from failure_stops_run [where bets = exWrongResult and re = True and r = 4 and L = exLib
      and sid = 9 and bal = 400 and sh = "''hhha''" and uh = "''hhhb''" and ca = CONTRACT_ADDRESS_OLD
      and sa = SERVER_ADDRESS_OLD, THEN conjunct2, THEN conjunct2, THEN conjunct1, rule_format,
      of 1 "\<lparr> userPrevHash = Some ''hhhb'', serverPrevHash = Some ''hhha'', prevBalance = 100 \<rparr>", OF h6] d6
  have "verifyBets exLib 9 exWrongResult 4 400 ''hhha'' ''hhhb'' True CONTRACT_ADDRESS_OLD SERVER_ADDRESS_OLD =
      (Inl (InvalidNumber (resultNum (rev exWrongResult ! 1))
        (calcResultNumber exLib (gameType (rev exWrongResult ! 1)) (serverSeed (rev exWrongResult ! 1))
          (userSeed (rev exWrongResult ! 1)) (num (rev exWrongResult ! 1)))), rev exWrongResult)"
    by simp
  with f6 have r6: "verifyBets exLib 9 exWrongResult 4 400 ''hhha'' ''hhhb'' True CONTRACT_ADDRESS_OLD SERVER_ADDRESS_OLD =
      (Inl (InvalidNumber 4 3), rev exWrongResult)"
    by simp
  have h7: "int (length exWrongBalance) = (if True then 4 - 1 else 4) \<and>
      1 < length exWrongBalance \<and>
      ''hhha'' = serverHash (hd (rev exWrongBalance)) \<and>
      ''hhhb'' = userHash (hd (rev exWrongBalance)) \<and>
      verifyLoop exLib 400 CONTRACT_ADDRESS_OLD SERVER_ADDRESS_OLD 0 initialVars (take 1 (rev exWrongBalance)) =
        Inr \<lparr> userPrevHash = Some ''hhhb'', serverPrevHash = Some ''hhha'', prevBalance = 100 \<rparr>"
    by (simp add: exWrongBalance_def ex_defs)
  have d7: "serverSigValid exLib CONTRACT_ADDRESS_OLD SERVER_ADDRESS_OLD (rev exWrongBalance ! 1) \<and>
      userSigValid exLib CONTRACT_ADDRESS_OLD (rev exWrongBalance ! 1) \<and>
      userSeedValid exLib (rev exWrongBalance ! 1) \<and>
      serverSeedValid exLib (rev exWrongBalance ! 1) \<and>
      userLinked exLib (rev exWrongBalance ! (1 - 1)) (rev exWrongBalance ! 1) \<and>
      serverLinked exLib (rev exWrongBalance ! (1 - 1)) (rev exWrongBalance ! 1) \<and>
      resultValid exLib (rev exWrongBalance ! 1) \<and>
      balance (rev exWrongBalance ! 1) \<noteq> 100"
    by (simp add: exWrongBalance_def ex_defs SERVER_ADDRESS_OLD_def)
  have f7: "balance (rev exWrongBalance ! 1) = 90"
    by (simp add: exWrongBalance_def ex_defs)
  from failure_stops_run [where bets = exWrongBalance and re = True and r = 4 and L = exLib
      and sid = 9 and bal = 400 and sh = "''hhha''" and uh = "''hhhb''" and ca = CONTRACT_ADDRESS_OLD
      and sa = SERVER_ADDRESS_OLD, THEN conjunct2, THEN conjunct2, THEN conjunct1, rule_format,
      of 1 "\<lparr> userPrevHash = Some ''hhhb'', serverPrevHash = Some ''hhha'', prevBalance = 100 \<rparr>", OF h7] d7
  have "verifyBets exLib 9 exWrongBalance 4 400 ''hhha'' ''hhhb'' True CONTRACT_ADDRESS_OLD SERVER_ADDRESS_OLD =
      (Inl (InvalidBalance (balance (rev exWrongBalance ! 1)) 400), rev exWrongBalance)"
    by simp
  with f7 have r7: "verifyBets exLib 9 exWrongBalance 4 400 ''hhha'' ''hhhb'' True CONTRACT_ADDRESS_OLD SERVER_ADDRESS_OLD =
      (Inl (InvalidBalance 90 400), rev exWrongBalance)"
    by simp
  have hf: "int (length exBets) = (if True then 4 - 1 else 4) \<and>
      exBets \<noteq> [] \<and>
      ''hhha'' = serverHash (hd (rev exBets)) \<and>
      ''hhhb'' = userHash (hd (rev exBets)) \<and>
      verifyLoop exLib 399 CONTRACT_ADDRESS_OLD SERVER_ADDRESS_OLD 0 initialVars (rev exBets) =
        Inr \<lparr> userPrevHash = Some ''hb'', serverPrevHash = Some ''ha'', prevBalance = 400 \<rparr> \<and>
      True \<and>
      (399::int) \<noteq> prevBalance
        \<lparr> userPrevHash = Some ''hb'', serverPrevHash = Some ''ha'', prevBalance = 400 \<rparr>"
    by (simp add: ex_defs)
  from failure_stops_run [where bets = exBets and re = True and r = 4 and L = exLib
      and sid = 9 and bal = 399 and sh = "''hhha''" and uh = "''hhhb''" and ca = CONTRACT_ADDRESS_OLD
      and sa = SERVER_ADDRESS_OLD, THEN conjunct2, THEN conjunct2, THEN conjunct2, rule_format,
      of "\<lparr> userPrevHash = Some ''hb'', serverPrevHash = Some ''ha'', prevBalance = 400 \<rparr>", OF hf]
  have rf: "verifyBets exLib 9 exBets 4 399 ''hhha'' ''hhhb'' True CONTRACT_ADDRESS_OLD SERVER_ADDRESS_OLD =
     (Inl (InvalidGameSessionBalance 400 399), rev exBets)"
    by simp
  from cnt r_cnt sess a1 a2 r_a1 r_a2 h1 d1 r1 h2 d2 r2 h3 d3 r3 h4 d4 r4 h5 d5 r5 h6 d6 r6 h7 d7 r7 hf rf
  show ?thesis by blast
qed

text \<open>
  C8 as stated fails. In one session the user hash of round 2 does not link to round 1
  while the server hash does; in another the server hash of round 3 does not link to
  round 2 while the user hash does. Both runs throw the same error, which therefore names
  neither the round nor the side.
\<close>

theorem hash_chain_error_names_nothing:
  "fst (verifyBets exLib 9 exUserChainBroken 3 250 ''hhha'' ''hhhb'' True CONTRACT_ADDRESS_OLD
          SERVER_ADDRESS_OLD) = Inl InvalidHashChain \<and>
   fst (verifyBets exLib 9 exServerChainBroken 4 400 ''hhha'' ''hhhb'' True
          CONTRACT_ADDRESS_OLD SERVER_ADDRESS_OLD) = Inl InvalidHashChain \<and>
   roundId (rev exUserChainBroken ! 1) = 2 \<and>
   \<not> userLinked exLib (rev exUserChainBroken ! 0) (rev exUserChainBroken ! 1) \<and>
   serverLinked exLib (rev exUserChainBroken ! 0) (rev exUserChainBroken ! 1) \<and>
   roundId (rev exServerChainBroken ! 2) = 3 \<and>
   \<not> serverLinked exLib (rev exServerChainBroken ! 1) (rev exServerChainBroken ! 2) \<and>
   userLinked exLib (rev exServerChainBroken ! 1) (rev exServerChainBroken ! 2) \<and>
   userLinked exLib (rev exServerChainBroken ! 0) (rev exServerChainBroken ! 1) \<and>
   serverLinked exLib (rev exServerChainBroken ! 0) (rev exServerChainBroken ! 1)"
  by (simp add: exUserChainBroken_def exServerChainBroken_def ex_defs)

section \<open>The array of bets\<close>

text \<open>
  C9 (as amended). \<^verbatim>\<open>verifyBets\<close> changes none of its arguments but the array of bets,
  which \<^verbatim>\<open>bets.reverse()\<close> reverses in place. After the call the caller's array holds
  the same bets: reversed whenever the count check has passed and the final round id is
  not 0, also when a later check throws, and as supplied otherwise. The other arguments
  are numbers, strings and a boolean, which JavaScript passes by value, and no field of
  a bet is assigned.
\<close>

theorem bets_reversed_in_place:
  "snd (verifyBets L sid bets r bal sh uh re ca sa) =
     (if int (length bets) \<noteq> (if re then r - 1 else r) \<or> r = 0 then bets else rev bets) \<and>
   set (snd (verifyBets L sid bets r bal sh uh re ca sa)) = set bets \<and>
   length (snd (verifyBets L sid bets r bal sh uh re ca sa)) = length bets"
proof -
  have "snd (verifyBets L sid bets r bal sh uh re ca sa) =
     (if int (length bets) \<noteq> (if re then r - 1 else r) \<or> r = 0 then bets else rev bets)"
    by (cases re) (auto simp: verifyBets_def Let_def split: list.splits sum.splits)
  then show ?thesis by simp
qed

theorem bets_reversed_in_place_witness:
  "snd (verifyBets exLib 9 exBets 4 400 ''hhha'' ''hhhb'' True CONTRACT_ADDRESS_OLD
          SERVER_ADDRESS_OLD) = [exBet1, exBet2, exBet3] \<and>
   snd (verifyBets exLib 9 exBets 7 400 ''hhha'' ''hhhb'' True CONTRACT_ADDRESS_OLD
          SERVER_ADDRESS_OLD) = [exBet3, exBet2, exBet1]"
  using bets_reversed_in_place [of exLib 9 exBets 4 400 "''hhha''" "''hhhb''" True
          CONTRACT_ADDRESS_OLD SERVER_ADDRESS_OLD]
    bets_reversed_in_place [of exLib 9 exBets 7 400 "''hhha''" "''hhhb''" True
          CONTRACT_ADDRESS_OLD SERVER_ADDRESS_OLD]
  by (simp add: exBets_def)

text \<open>
  C9 as stated fails. The run on the small session returns, yet it leaves the caller's
  array in another order than supplied; a second run on the same array throws on the
  first anchor.
\<close>

theorem bets_array_changed:
  "fst (verifyBets exLib 9 exBets 4 400 ''hhha'' ''hhhb'' True CONTRACT_ADDRESS_OLD
          SERVER_ADDRESS_OLD) = Inr True \<and>
   snd (verifyBets exLib 9 exBets 4 400 ''hhha'' ''hhhb'' True CONTRACT_ADDRESS_OLD
          SERVER_ADDRESS_OLD) \<noteq> exBets \<and>
   fst (verifyBets exLib 9
          (snd (verifyBets exLib 9 exBets 4 400 ''hhha'' ''hhhb'' True CONTRACT_ADDRESS_OLD
                  SERVER_ADDRESS_OLD))
          4 400 ''hhha'' ''hhhb'' True CONTRACT_ADDRESS_OLD SERVER_ADDRESS_OLD)
     = Inl InvalidFirstBetServerHash"
proof -
  have differ: "[exBet1, exBet2, exBet3] \<noteq> exBets"
    by (simp add: exBets_def exBet1_def exBet3_def)
  have again: "fst (verifyBets exLib 9 [exBet1, exBet2, exBet3] 4 400 ''hhha'' ''hhhb'' True
      CONTRACT_ADDRESS_OLD SERVER_ADDRESS_OLD) = Inl InvalidFirstBetServerHash"
    by (simp add: verifyBets_def Let_def exBet3_def)
  from differ again show ?thesis by (simp add: ex_session_ok)
qed

section \<open>The eras\<close>

text \<open>Every session id from 256 on lies in exactly one era of the table.\<close>

lemma spec_eras_unique:
  assumes "256 \<le> sid"
  shows "\<exists>!e. e \<in> set spec_eras \<and> inEra e sid"
proof -
  consider "sid < 572" | "572 \<le> sid" "sid < 638" | "638 \<le> sid" by linarith
  then show ?thesis
  proof cases
    case 1
    with assms show ?thesis
      by (intro ex1I [of _ "spec_eras ! 0"]) (auto simp: spec_eras_def inEra_def)
  next
    case 2
    then show ?thesis
      by (intro ex1I [of _ "spec_eras ! 1"]) (auto simp: spec_eras_def inEra_def)
  next
    case 3
    then show ?thesis
      by (intro ex1I [of _ "spec_eras ! 2"]) (auto simp: spec_eras_def inEra_def)
  qed
qed

text \<open>Neither the loop nor the run of index.js throws the error of an unsupported id.\<close>

lemma verifyLoop_no_unsupported:
  "verifyLoop L sb ca sa i vars bs \<noteq> Inl VerificationNotSupported"
proof (induction bs arbitrary: i vars)
  case Nil
  show ?case by simp
next
  case (Cons b rest)
  show ?case
  proof (cases "verifyBet L sb ca sa i vars b")
    case (Inl e)
    with verifyBet_errors [OF Inl] show ?thesis by auto
  next
    case (Inr v)
    with Cons.IH [of "Suc i" v] show ?thesis by simp
  qed
qed

lemma verifyBets_no_unsupported:
  "fst (verifyBets L sid bets r bal sh uh re ca sa) \<noteq> Inl VerificationNotSupported"
  using verifyLoop_no_unsupported [of L bal ca sa 0 initialVars "rev bets"]
  by (auto simp: verifyBets_def Let_def split: list.splits sum.splits)

lemma verifyGameSession_no_unsupported:
  "verifyGameSession L sid bets gd \<noteq> Inl VerificationNotSupported"
proof (cases "sessionAddresses sid")
  case (Pair ca sa)
  with verifyBets_no_unsupported [of L sid bets "gd_roundId gd" "gd_balance gd"
      "gd_serverEndHash gd" "gd_userEndHash gd" "gd_regularEnded gd" ca sa]
  show ?thesis
    by (auto simp: verifyGameSession_def split: prod.splits sum.splits)
qed

text \<open>
  C7 (as amended). index.js supports every session id: it takes the old contract and
  server address for an id below 5246 and the new ones from 5246 on, two eras that meet
  at one threshold, without a signature version, and \<^verbatim>\<open>verifyGameSession\<close> never throws
  the error of an unsupported id. In the earlier variant \<^verbatim>\<open>getContractAddress\<close> throws for
  every session id below 256, the first id of the first era; for every session id from
  256 on exactly one era of the table contains it, and \<^verbatim>\<open>getContractAddress\<close>,
  \<^verbatim>\<open>SERVER_ADDRESS\<close> and \<^verbatim>\<open>getSignatureVersion\<close> give the contract, the server signer and
  the signature version of that era. The table is contiguous: every era ends where the
  next one starts.
\<close>

theorem era_resolution:
  "(sid < 5246 \<longrightarrow> sessionAddresses sid = (CONTRACT_ADDRESS_OLD, SERVER_ADDRESS_OLD)) \<and>
   (5246 \<le> sid \<longrightarrow> sessionAddresses sid = (CONTRACT_ADDRESS, SERVER_ADDRESS)) \<and>
   verifyGameSession L sid bets gd \<noteq> Inl VerificationNotSupported \<and>
   (sid < 256 \<longrightarrow> getContractAddress sid = Inl VerificationNotSupported \<and>
                  \<not> (\<exists>e \<in> set spec_eras. inEra e sid)) \<and>
   (256 \<le> sid \<longrightarrow>
      (\<exists>!e. e \<in> set spec_eras \<and> inEra e sid) \<and>
      (\<forall>e \<in> set spec_eras. inEra e sid \<longrightarrow>
         getContractAddress sid = Inr (contractIdentity e) \<and>
         SERVER_ADDRESS_early = serverIdentity e \<and>
         getSignatureVersion sid = signatureVersion e)) \<and>
   contiguous spec_eras \<and> minSessionId (hd spec_eras) = 256"
proof -
  have later: "(sid < 5246 \<longrightarrow> sessionAddresses sid = (CONTRACT_ADDRESS_OLD, SERVER_ADDRESS_OLD)) \<and>
   (5246 \<le> sid \<longrightarrow> sessionAddresses sid = (CONTRACT_ADDRESS, SERVER_ADDRESS))"
    by (simp add: sessionAddresses_def GAME_ID_CONTRACT_CHANGED_def)
  have below: "getContractAddress sid = Inl VerificationNotSupported \<and>
                  \<not> (\<exists>e \<in> set spec_eras. inEra e sid)" if "sid < 256"
    using that by (auto simp: getContractAddress_def spec_eras_def inEra_def)
  have code: "\<forall>e \<in> set spec_eras. inEra e sid \<longrightarrow>
         getContractAddress sid = Inr (contractIdentity e) \<and>
         SERVER_ADDRESS_early = serverIdentity e \<and>
         getSignatureVersion sid = signatureVersion e"
    by (auto simp: getContractAddress_def getSignatureVersion_def NEW_EIP_GAME_ID_def
        OLD_EIP_GAME_ID_def spec_eras_def inEra_def)
  have table: "contiguous spec_eras \<and> minSessionId (hd spec_eras) = 256"
    by (simp add: spec_eras_def)
  from later verifyGameSession_no_unsupported [of L sid bets gd] below
    spec_eras_unique [of sid] code table
  show ?thesis by blast
qed

theorem era_resolution_witness:
  "(100::int) < 5246 \<and> sessionAddresses 100 = (CONTRACT_ADDRESS_OLD, SERVER_ADDRESS_OLD) \<and>
   (5246::int) \<le> 6000 \<and> sessionAddresses 6000 = (CONTRACT_ADDRESS, SERVER_ADDRESS) \<and>
   sessionAddresses 5246 = (CONTRACT_ADDRESS, SERVER_ADDRESS) \<and>
   (100::int) < 256 \<and> getContractAddress 100 = Inl VerificationNotSupported \<and>
   (256::int) \<le> 600 \<and> inEra (spec_eras ! 1) 600 \<and>
   getContractAddress 600 = Inr CONTRACT_ADDRESS3 \<and> getSignatureVersion 600 = 2 \<and>
   getContractAddress 256 = Inr CONTRACT_ADDRESS2 \<and> getSignatureVersion 256 = 1"
proof -
  have in1: "spec_eras ! 1 \<in> set spec_eras" and era1: "inEra (spec_eras ! 1) 600"
    and c1: "contractIdentity (spec_eras ! 1) = CONTRACT_ADDRESS3"
    and v1: "signatureVersion (spec_eras ! 1) = 2"
    by (simp_all add: spec_eras_def inEra_def)
  have in0: "spec_eras ! 0 \<in> set spec_eras" and era0: "inEra (spec_eras ! 0) 256"
    and c0: "contractIdentity (spec_eras ! 0) = CONTRACT_ADDRESS2"
    and v0: "signatureVersion (spec_eras ! 0) = 1"
    by (simp_all add: spec_eras_def inEra_def)
  from era_resolution [of 100 exLib exBets exGameData]
  have low: "sessionAddresses 100 = (CONTRACT_ADDRESS_OLD, SERVER_ADDRESS_OLD) \<and>
      getContractAddress 100 = Inl VerificationNotSupported"
    by simp
  from era_resolution [of 6000 exLib exBets exGameData] era_resolution [of 5246 exLib exBets exGameData]
  have high: "sessionAddresses 6000 = (CONTRACT_ADDRESS, SERVER_ADDRESS) \<and>
      sessionAddresses 5246 = (CONTRACT_ADDRESS, SERVER_ADDRESS)"
    by simp
  from era_resolution [of 600 exLib exBets exGameData] in1 era1
  have "getContractAddress 600 = Inr (contractIdentity (spec_eras ! 1)) \<and>
        getSignatureVersion 600 = signatureVersion (spec_eras ! 1)"
    by simp
  moreover from era_resolution [of 256 exLib exBets exGameData] in0 era0
  have "getContractAddress 256 = Inr (contractIdentity (spec_eras ! 0)) \<and>
        getSignatureVersion 256 = signatureVersion (spec_eras ! 0)"
    by simp
  ultimately show ?thesis using low high era1 c1 v1 c0 v0 by simp
qed

text \<open>
  C7 as stated fails on index.js. The session ids 100, 0 and -1, which the earlier variant
  refuses, get the old pair of addresses, and the run for the id 100 on the small session
  ends with the message of success.
\<close>

theorem unsupported_id_resolved:
  "(100::int) < 256 \<and> getContractAddress 100 = Inl VerificationNotSupported \<and>
   sessionAddresses 100 = (CONTRACT_ADDRESS_OLD, SERVER_ADDRESS_OLD) \<and>
   sessionAddresses 0 = (CONTRACT_ADDRESS_OLD, SERVER_ADDRESS_OLD) \<and>
   sessionAddresses (- 1) = (CONTRACT_ADDRESS_OLD, SERVER_ADDRESS_OLD) \<and>
   verifyGameSession exLib 100 exBets exGameData = Inr (AllBetsValid 3 100)"
proof -
  have addrs: "sessionAddresses 100 = (CONTRACT_ADDRESS_OLD, SERVER_ADDRESS_OLD) \<and>
      sessionAddresses 0 = (CONTRACT_ADDRESS_OLD, SERVER_ADDRESS_OLD) \<and>
      sessionAddresses (- 1) = (CONTRACT_ADDRESS_OLD, SERVER_ADDRESS_OLD)"
    by (simp add: sessionAddresses_def GAME_ID_CONTRACT_CHANGED_def)
  have run: "verifyBets exLib 100 exBets 4 400 ''hhha'' ''hhhb'' True CONTRACT_ADDRESS_OLD
       SERVER_ADDRESS_OLD = (Inr True, [exBet1, exBet2, exBet3])"
    by (simp add: ex_defs)
  from addrs run have "verifyGameSession exLib 100 exBets exGameData = Inr (AllBetsValid 3 100)"
    by (simp add: verifyGameSession_def exGameData_def)
  moreover have "getContractAddress 100 = Inl VerificationNotSupported"
    by (simp add: getContractAddress_def)
  ultimately show ?thesis using addrs by simp
qed

section \<open>The earlier variant\<close>

text \<open>
  The earlier variant differs from index.js in three places that the statements above
  depend on. It has no guard for a session without rounds: an empty list never passes.
\<close>

lemma verifyBets_early_no_bets:
  "verifyBets_early L sid [] r bal sh uh re =
     (if (if re then r - 1 else r) \<noteq> 0
        then Inl (InvalidNumberOfBets 0 (if re then r - 1 else r))
        else Inl TypeError, [])"
  by (cases re) (simp_all add: verifyBets_early_def Let_def)

text \<open>
  It compares the settled balance with the running balance whatever way the session
  ended.
\<close>

lemma verifyBets_early_final_balance:
  assumes "int (length bets) = (if re then r - 1 else r)" and "bets \<noteq> []"
    and "sh = serverHash (hd (rev bets))" and "uh = userHash (hd (rev bets))"
    and "verifyLoop_early L bal (getSignatureVersion sid) 0 initialVars (rev bets) = Inr v"
  shows "verifyBets_early L sid bets r bal sh uh re =
     (if bal \<noteq> prevBalance v
        then Inl (InvalidGameSessionBalance (prevBalance v) bal)
        else Inr True, rev bets)"
proof -
  from assms(1) have n: "int (length bets) = r - (if re then 1 else 0)"
    by (auto split: if_splits)
  from assms(2) obtain b bs where rv: "rev bets = b # bs"
    by (cases "rev bets") auto
  with assms(3,4) have "sh = serverHash b" and "uh = userHash b" by simp_all
  with assms(5) show ?thesis
    by (simp add: verifyBets_early_def Let_def n rv split: sum.splits)
qed

text \<open>
  It computes the result number from the game type and the two seeds only, and takes
  the contract address of the signed domain from the bet itself.
\<close>

lemma verifyBet_early_Inr:
  assumes "verifyBet_early L sb version i vars b = Inr v"
  shows "resultNum b = calcResultNumber_early L (gameType b) (serverSeed b) (userSeed b)"
    and "verifySignature_early L (signedBetDataOf b) CHAIN_ID (contractAddress b)
           (serverSig b) SERVER_ADDRESS_early version"
    and "verifySignature_early L (signedBetDataOf b) CHAIN_ID (contractAddress b)
           (userSig b) (address (user b)) version"
  using assms by (simp_all add: verifyBet_early_def Let_def split: if_splits)

end
